theory Spec2Isabelle
  imports Complex_Main "HOL-Library.Multiset"
begin

section \<open>Python strings\<close>

text \<open>
  A Python \<open>str\<close> is modelled as a \<open>string\<close>: a list of characters with code points
  below 256. \<open>bytes\<close> are lists of the same character type.
\<close>

type_synonym bytes = string

definition is_linebreak :: "char \<Rightarrow> bool" where
  \<comment> \<open>the line boundaries of \<open>str.splitlines\<close> below code point 256\<close>
  "is_linebreak c =
     (c \<in> set [CHR 0x0A, CHR 0x0B, CHR 0x0C, CHR 0x0D, CHR 0x1C, CHR 0x1D, CHR 0x1E, CHR 0x85])"

definition is_space :: "char \<Rightarrow> bool" where
  \<comment> \<open>\<open>str.isspace\<close> below code point 256, the characters \<open>str.strip()\<close> removes\<close>
  "is_space c =
     (c \<in> set [CHR 0x09, CHR 0x0A, CHR 0x0B, CHR 0x0C, CHR 0x0D, CHR 0x1C, CHR 0x1D, CHR 0x1E,
                CHR 0x1F, CHR 0x20, CHR 0x85, CHR 0xA0])"

fun splitlines_from :: "string \<Rightarrow> string \<Rightarrow> string list" where
  "splitlines_from cur [] = (if cur = [] then [] else [cur])"
| "splitlines_from cur (c # cs) =
     (if c = CHR 0x0D then
        (case cs of
           [] \<Rightarrow> cur # splitlines_from [] cs
         | d # ds \<Rightarrow> if d = CHR 0x0A then cur # splitlines_from [] ds
                     else cur # splitlines_from [] cs)
      else if is_linebreak c then cur # splitlines_from [] cs
      else splitlines_from (cur @ [c]) cs)"

definition splitlines :: "string \<Rightarrow> string list" where
  \<comment> \<open>\<open>s.splitlines()\<close>: no line for the empty rest after a final line boundary\<close>
  "splitlines s = splitlines_from [] s"

definition strip :: "string \<Rightarrow> string" where
  "strip s = rev (dropWhile is_space (rev (dropWhile is_space s)))"

definition startswith :: "string \<Rightarrow> string \<Rightarrow> bool" where
  "startswith s p = (take (length p) s = p)"

fun str_contains :: "string \<Rightarrow> string \<Rightarrow> bool" where
  \<comment> \<open>\<open>sub in s\<close>\<close>
  "str_contains sub [] = (sub = [])"
| "str_contains sub (c # cs) = (startswith (c # cs) sub \<or> str_contains sub cs)"

function str_count :: "string \<Rightarrow> string \<Rightarrow> nat" where
  \<comment> \<open>\<open>s.count(sub)\<close>: occurrences found left to right without overlap\<close>
  "str_count s sub =
     (if sub = [] then length s + 1
      else if s = [] then 0
      else if startswith s sub then 1 + str_count (drop (length sub) s) sub
      else str_count (tl s) sub)"
  by pat_completeness auto
termination
  by (relation "measure (\<lambda>(s, sub). length s)") auto

declare str_count.simps [simp del]

definition lower_char :: "char \<Rightarrow> char" where
  "lower_char c =
     (let n = (of_char c :: nat)
      in if (65 \<le> n \<and> n \<le> 90) \<or> (192 \<le> n \<and> n \<le> 222 \<and> n \<noteq> 215)
         then char_of (n + 32) else c)"

definition lower :: "string \<Rightarrow> string" where
  "lower s = map lower_char s"

section \<open>Data model\<close>

record CodeAnalysis =
  file_path :: string
  language :: string
  lines_of_code :: nat
  complexity_score :: rat
  functions' :: "string list"
  classes :: "string list"
  imports' :: "string list"
  issues :: "string list"
  security_issues :: "string list option"

text \<open>
  The syntax tree of Python's \<open>ast\<close> module, reduced to what the analyzer inspects: each
  node has a kind and its child nodes in the order of \<open>ast.iter_child_nodes\<close>. Every node
  class the analyzer does not test for (modules, expressions, \<open>async\<close> definitions, ...)
  is \<open>Other_node\<close>.
\<close>

datatype node_kind =
    FunctionDef string
  | ClassDef string
  | Import "string list"
  | ImportFrom "string option" "string list"
  | If_stmt | For_stmt | While_stmt | Try_stmt | With_stmt
  | Other_node

datatype py_ast = Node node_kind "py_ast list"

text \<open>
  The regular expressions of the source, by name. The \<open>re\<close> engine is a parameter of the
  model, so a pattern is only ever handed to it.
\<close>

(* RE_eval: eval\s*\(            RE_exec: exec\s*\(          RE_dunder_import: __import__\s*\(
   RE_shell_true: shell=True     RE_sql_format: sql.*%.*%    RE_pickle_loads: pickle\.loads?\(
   RE_function: function\s+(\w+) RE_method: (\w+)\s*:\s*function
   RE_arrow: const\s+(\w+)\s*=\s*\(.*?\)\s*=>                RE_class: class\s+(\w+)
   RE_import_from: import.*from\s+['"]([^'"]+)['"]
   RE_inner_html: innerHTML\s*=  RE_document_write: document\.write\s*\(
   RE_jquery_html: \.html\s*\(.*\$
   RE_php_get: \$_GET\[          RE_php_post: \$_POST\[      RE_mysql_query: mysql_query\s*\(
   RE_md5_password: md5\s*\(.*password *)
datatype regex =
    RE_eval | RE_exec | RE_dunder_import | RE_shell_true | RE_sql_format | RE_pickle_loads
  | RE_function | RE_method | RE_arrow | RE_class | RE_import_from
  | RE_inner_html | RE_document_write | RE_jquery_html
  | RE_php_get | RE_php_post | RE_mysql_query | RE_md5_password

text \<open>
  The library functions the analyzer calls: \<open>hashlib.md5(b).hexdigest()\<close>, the decoding
  done by \<open>open(path, 'r', encoding='utf-8', errors='ignore').read()\<close>, \<open>ast.parse\<close>
  (see \<open>parse_result\<close>), \<open>re.search\<close> with
  \<open>re.IGNORECASE\<close> and \<open>re.findall\<close>, \<open>json.dumps\<close> of the analysis' fields and
  \<open>CodeAnalysis(**json.loads(text))\<close> (\<open>None\<close> when either step raises).

  \<open>ast.parse\<close> returns the tree, raises \<open>SyntaxError\<close>, or raises another exception
  (\<open>RecursionError\<close> and \<open>MemoryError\<close> on deeply nested source, \<open>ValueError\<close> on
  a NUL character in older interpreters); each carries the text of the exception.
\<close>

datatype parse_result = Parsed py_ast | SyntaxError string | OtherError string

record 'j runtime =
  md5_hexdigest :: "bytes \<Rightarrow> string"
  decode_text :: "bytes \<Rightarrow> string"
  ast_parse :: "string \<Rightarrow> parse_result"
  re_search :: "regex \<Rightarrow> string \<Rightarrow> bool"
  re_findall :: "regex \<Rightarrow> string \<Rightarrow> string list"
  json_dumps :: "CodeAnalysis \<Rightarrow> 'j"
  json_loads :: "'j \<Rightarrow> CodeAnalysis option"

datatype fs_entry = Absent | Unreadable string | File bytes

type_synonym filesystem = "string \<Rightarrow> fs_entry"

definition read_text :: "'j runtime \<Rightarrow> filesystem \<Rightarrow> string \<Rightarrow> string + string" where
  \<comment> \<open>\<open>open(file_path, 'r', ...).read()\<close>: \<open>Inl\<close> is the text of the exception\<close>
  "read_text rt fs path =
     (case fs path of
        File b \<Rightarrow> Inr (decode_text rt b)
      | Unreadable e \<Rightarrow> Inl e
      | Absent \<Rightarrow> Inl ''[Errno 2] No such file or directory'')"

section \<open>The code analyzer\<close>

definition get_file_hash :: "'j runtime \<Rightarrow> filesystem \<Rightarrow> string \<Rightarrow> string" where
  "get_file_hash rt fs path =
     (case fs path of File b \<Rightarrow> md5_hexdigest rt b | _ \<Rightarrow> [])"

function walk_queue :: "py_ast list \<Rightarrow> py_ast list" where
  \<comment> \<open>the loop of \<open>ast.walk\<close>: pop the first node of the queue, append its children, yield it\<close>
  "walk_queue [] = []"
| "walk_queue (Node k cs # todo) = Node k cs # walk_queue (todo @ cs)"
  by pat_completeness auto
termination
  by (relation "measure (\<lambda>q. sum_list (map size q))") (auto simp: size_list_conv_sum_list)

definition ast_walk :: "py_ast \<Rightarrow> py_ast list" where
  "ast_walk node = walk_queue [node]"

fun is_decision :: "py_ast \<Rightarrow> bool" where
  \<comment> \<open>\<open>isinstance(n, (ast.If, ast.For, ast.While, ast.Try, ast.With))\<close>\<close>
  "is_decision (Node If_stmt cs) = True"
| "is_decision (Node For_stmt cs) = True"
| "is_decision (Node While_stmt cs) = True"
| "is_decision (Node Try_stmt cs) = True"
| "is_decision (Node With_stmt cs) = True"
| "is_decision (Node k cs) = False"

type_synonym walk_state = "string list \<times> string list \<times> string list \<times> nat"

fun visit :: "py_ast \<Rightarrow> walk_state \<Rightarrow> walk_state" where
  \<comment> \<open>one round of the loop over \<open>ast.walk(tree)\<close>; the state is
      \<open>(functions, classes, imports, complexity)\<close>\<close>
  "visit (Node (FunctionDef name) cs) (fns, cls, imps, complexity) =
     (fns @ [name], cls, imps,
      complexity + length (filter is_decision (ast_walk (Node (FunctionDef name) cs))))"
| "visit (Node (ClassDef name) cs) (fns, cls, imps, complexity) =
     (fns, cls @ [name], imps, complexity)"
| "visit (Node (Import names) cs) (fns, cls, imps, complexity) =
     (fns, cls, imps @ names, complexity)"
| "visit (Node (ImportFrom modl names) cs) (fns, cls, imps, complexity) =
     (fns, cls,
      imps @ map (\<lambda>name. (case modl of None \<Rightarrow> [] | Some m \<Rightarrow> m) @ ''.'' @ name) names,
      complexity)"
| "visit (Node k cs) st = st"

definition python_security_patterns :: "(regex \<times> string) list" where
  "python_security_patterns =
     [(RE_eval, ''Use of eval() - potential code injection''),
      (RE_exec, ''Use of exec() - potential code execution''),
      (RE_dunder_import, ''Dynamic imports - review for security''),
      (RE_shell_true, ''Shell injection risk in subprocess''),
      (RE_sql_format, ''Potential SQL injection''),
      (RE_pickle_loads, ''Pickle usage - ensure trusted data only'')]"

definition scan_patterns :: "'j runtime \<Rightarrow> (regex \<times> string) list \<Rightarrow> string \<Rightarrow> string list" where
  \<comment> \<open>\<open>for pattern, warning in patterns: if re.search(...): security_issues.append(warning)\<close>\<close>
  "scan_patterns rt patterns content =
     map snd (filter (\<lambda>(pattern, warning). re_search rt pattern content) patterns)"

text \<open>
  The messages are the source's without their leading pictograph, which is not ASCII.
  \<open>analyze_python_file\<close> catches \<open>SyntaxError\<close> only: any other exception of
  \<open>ast.parse\<close> leaves the function, and the result is \<open>Inl\<close> of its text.
\<close>

definition analyze_python_file ::
  "'j runtime \<Rightarrow> filesystem \<Rightarrow> string \<Rightarrow> string + CodeAnalysis" where
  "analyze_python_file rt fs path =
     (case read_text rt fs path of
        Inl e \<Rightarrow>
          Inr \<lparr>file_path = path, language = ''python'', lines_of_code = 0, complexity_score = 0,
           functions' = [], classes = [], imports' = [],
           issues = [''File read error: '' @ e], security_issues = Some []\<rparr>
      | Inr content \<Rightarrow>
         (case ast_parse rt content of
            SyntaxError e \<Rightarrow>
              Inr \<lparr>file_path = path, language = ''python'',
               lines_of_code = length (splitlines content), complexity_score = 0,
               functions' = [], classes = [], imports' = [],
               issues = [''Syntax Error: '' @ e], security_issues = Some []\<rparr>
          | OtherError e \<Rightarrow> Inl e
          | Parsed tree \<Rightarrow>
             (case fold visit (ast_walk tree) ([], [], [], 0) of
                (fns, cls, imps, complexity) \<Rightarrow>
                  let sec = scan_patterns rt python_security_patterns content;
                      loc = length (filter (\<lambda>line. strip line \<noteq> [] \<and> \<not> startswith (strip line) ''#'')
                                      (splitlines content));
                      score = (of_nat complexity :: rat) / of_nat (max (length fns) 1);
                      content_lower = lower content;
                      iss =
                        (if length fns > 25
                         then [''High function count - consider splitting into modules''] else []) @
                        (if loc > 1000 then [''Large file - consider refactoring''] else []) @
                        (if score > 8
                         then [''High complexity - simplify conditional logic''] else []) @
                        (if length cls > 10
                         then [''Many classes - consider design patterns''] else []) @
                        (if str_contains ''todo'' content_lower \<or> str_contains ''fixme'' content_lower
                         then [''Contains TODO/FIXME comments''] else []) @
                        (if str_count content ''except:'' > 0
                         then [''Bare except clauses - specify exception types''] else []) @
                        (if str_contains ''print('' content \<and> \<not> str_contains ''debug'' content_lower
                         then [''Print statements found - consider using logging''] else [])
                  in Inr \<lparr>file_path = path, language = ''python'', lines_of_code = loc,
                      complexity_score = score, functions' = fns, classes = cls, imports' = imps,
                      issues = iss, security_issues = Some sec\<rparr>)))"

definition js_security_patterns :: "(regex \<times> string) list" where
  "js_security_patterns =
     [(RE_eval, ''Use of eval() - code injection risk''),
      (RE_inner_html, ''innerHTML usage - XSS risk''),
      (RE_document_write, ''document.write - XSS vulnerability''),
      (RE_jquery_html, ''Potential XSS in jQuery html()'')]"

definition php_security_patterns :: "(regex \<times> string) list" where
  "php_security_patterns =
     [(RE_php_get, ''Direct $_GET usage - validate input''),
      (RE_php_post, ''Direct $_POST usage - validate input''),
      (RE_eval, ''Use of eval() - code injection''),
      (RE_exec, ''Use of exec() - command injection''),
      (RE_mysql_query, ''Deprecated mysql_query - use PDO''),
      (RE_md5_password, ''MD5 for passwords - use stronger hashing'')]"

definition analyze_generic_file ::
  "'j runtime \<Rightarrow> filesystem \<Rightarrow> string \<Rightarrow> string \<Rightarrow> CodeAnalysis" where
  "analyze_generic_file rt fs path lang =
     (case read_text rt fs path of
        Inl e \<Rightarrow>
          \<lparr>file_path = path, language = lang, lines_of_code = 0, complexity_score = 0,
           functions' = [], classes = [], imports' = [],
           issues = [''File read error: '' @ e], security_issues = Some []\<rparr>
      | Inr content \<Rightarrow>
          let loc = length (filter (\<lambda>line. strip line \<noteq> []) (splitlines content));
              (fns, cls, imps, sec) =
                (if lang = ''javascript'' then
                   (re_findall rt RE_function content @ re_findall rt RE_method content @
                      re_findall rt RE_arrow content,
                    re_findall rt RE_class content,
                    re_findall rt RE_import_from content,
                    scan_patterns rt js_security_patterns content)
                 else if lang = ''php'' then
                   (re_findall rt RE_function content,
                    re_findall rt RE_class content,
                    [],
                    scan_patterns rt php_security_patterns content)
                 else ([], [], [], []));
              iss =
                (if loc > 500 then [''Large file - consider refactoring''] else []) @
                (if str_count content ''TODO'' + str_count content ''FIXME'' > 0
                 then [''Contains TODO/FIXME comments''] else [])
          in \<lparr>file_path = path, language = lang, lines_of_code = loc, complexity_score = 0,
              functions' = fns, classes = cls, imports' = imps,
              issues = iss, security_issues = Some sec\<rparr>)"

section \<open>The database\<close>

text \<open>
  The SQLite file as a value: one field per table that the operations below touch. An
  instant (\<open>CURRENT_TIMESTAMP\<close>) is a number of seconds. Tables with a primary key on
  the name are maps; \<open>conversations\<close> and \<open>code_analysis\<close> are the lists of their rows in
  rowid order, with the counter that \<open>AUTOINCREMENT\<close> keeps.
\<close>

record Conversation =
  id' :: nat
  session_name :: string
  timestamp :: int
  user_input :: string
  ai_response :: string
  context_used :: string
  model_used :: string

record 'j code_analysis_row =
  ca_id :: nat
  ca_file_path :: string
  ca_file_hash :: string
  ca_language :: string
  ca_lines_of_code :: nat
  ca_complexity_score :: rat
  ca_analysis_data :: 'j
  ca_timestamp :: int

record session_row =
  created_at :: int
  last_used :: int
  description :: "string option"
  mood :: "string option"

record achievement_row =
  ach_description :: string
  unlocked :: bool
  progress :: int
  target :: int
  unlocked_at :: "int option"

record 'j database =
  conversations :: "Conversation list"
  conversations_seq :: nat
  code_analysis :: "'j code_analysis_row list"
  code_analysis_seq :: nat
  sessions :: "string \<rightharpoonup> session_row"
  achievements :: "string \<rightharpoonup> achievement_row"

definition init_db :: "'j database" where
  \<comment> \<open>the tables that \<open>init_db\<close> creates in a new file\<close>
  "init_db =
     \<lparr>conversations = [], conversations_seq = 0, code_analysis = [], code_analysis_seq = 0,
      sessions = Map.empty, achievements = Map.empty\<rparr>"

subsection \<open>Achievements\<close>

definition insert_or_ignore_achievement ::
  "string \<Rightarrow> int \<Rightarrow> (string \<rightharpoonup> achievement_row) \<Rightarrow> (string \<rightharpoonup> achievement_row)" where
  \<comment> \<open>\<open>INSERT OR IGNORE INTO achievements (name, target, description) VALUES (?, ?, ?)\<close>;
      the other columns take their defaults\<close>
  "insert_or_ignore_achievement name tgt tab =
     (case tab name of
        Some row \<Rightarrow> tab
      | None \<Rightarrow> tab(name \<mapsto> \<lparr>ach_description = ''Achievement: '' @ name, unlocked = False,
                               progress = 0, target = tgt, unlocked_at = None\<rparr>))"

definition update_progress ::
  "string \<Rightarrow> (string \<rightharpoonup> achievement_row) \<Rightarrow> (string \<rightharpoonup> achievement_row)" where
  \<comment> \<open>\<open>UPDATE achievements SET progress = progress + 1 WHERE name = ? AND unlocked = FALSE\<close>\<close>
  "update_progress name tab =
     (case tab name of
        Some row \<Rightarrow> if \<not> unlocked row then tab(name \<mapsto> row\<lparr>progress := progress row + 1\<rparr>) else tab
      | None \<Rightarrow> tab)"

definition select_reached :: "string \<Rightarrow> (string \<rightharpoonup> achievement_row) \<Rightarrow> int option" where
  \<comment> \<open>\<open>SELECT progress FROM achievements WHERE name = ? AND progress >= target
      AND unlocked = FALSE\<close>, then \<open>fetchone()\<close>\<close>
  "select_reached name tab =
     (case tab name of
        Some row \<Rightarrow> if progress row \<ge> target row \<and> \<not> unlocked row then Some (progress row) else None
      | None \<Rightarrow> None)"

definition update_unlocked ::
  "string \<Rightarrow> int \<Rightarrow> (string \<rightharpoonup> achievement_row) \<Rightarrow> (string \<rightharpoonup> achievement_row)" where
  \<comment> \<open>\<open>UPDATE achievements SET unlocked = TRUE, unlocked_at = CURRENT_TIMESTAMP
      WHERE name = ?\<close>\<close>
  "update_unlocked name now tab =
     (case tab name of
        Some row \<Rightarrow> tab(name \<mapsto> row\<lparr>unlocked := True, unlocked_at := Some now\<rparr>)
      | None \<Rightarrow> tab)"

definition increment_achievement ::
  "string \<Rightarrow> int \<Rightarrow> int \<Rightarrow> 'j database \<Rightarrow> 'j database" where
  \<comment> \<open>\<open>now\<close> is the value of \<open>CURRENT_TIMESTAMP\<close> during the call; the message printed on
      unlocking is not part of the state\<close>
  "increment_achievement name tgt now db =
     (let tab1 = insert_or_ignore_achievement name tgt (achievements db);
          tab2 = update_progress name tab1;
          tab3 = (case select_reached name tab2 of
                    Some p \<Rightarrow> update_unlocked name now tab2
                  | None \<Rightarrow> tab2)
      in db\<lparr>achievements := tab3\<rparr>)"

definition achievements_to_check :: "string \<rightharpoonup> (string \<times> int) list" where
  "achievements_to_check =
     map_of
       [(''conversation'', [(''chat_master'', 100), (''session_expert'', 10)]),
        (''code_analysis'', [(''code_analyzer'', 50), (''quality_guru'', 25)]),
        (''git_usage'', [(''git_ninja'', 25), (''commit_master'', 50)]),
        (''learning'', [(''knowledge_seeker'', 20), (''concept_master'', 100)])]"

definition update_achievements :: "string \<Rightarrow> int \<Rightarrow> 'j database \<Rightarrow> 'j database" where
  "update_achievements action_type now db =
     (case achievements_to_check action_type of
        Some pairs \<Rightarrow> fold (\<lambda>(name, tgt). increment_achievement name tgt now) pairs db
      | None \<Rightarrow> db)"

subsection \<open>Conversations and sessions\<close>

definition save_conversation ::
  "string \<Rightarrow> string \<Rightarrow> string \<Rightarrow> string \<Rightarrow> string \<Rightarrow> int \<Rightarrow> 'j database \<Rightarrow> 'j database" where
  \<comment> \<open>\<open>INSERT INTO conversations ...\<close>, then
      \<open>INSERT OR REPLACE INTO sessions (name, last_used) VALUES (?, CURRENT_TIMESTAMP)\<close>:
      a row of that name is deleted, and the new row takes the defaults of the columns
      the statement does not name\<close>
  "save_conversation session user_in ai_out context model now db =
     (let n = Suc (conversations_seq db);
          db1 = db\<lparr>conversations := conversations db @
                      [\<lparr>id' = n, session_name = session, timestamp = now, user_input = user_in,
                        ai_response = ai_out, context_used = context, model_used = model\<rparr>],
                    conversations_seq := n\<rparr>;
          db2 = db1\<lparr>sessions := (sessions db1)(session \<mapsto>
                      \<lparr>created_at = now, last_used = now, description = None,
                       mood = Some ''neutral''\<rparr>)\<rparr>
      in update_achievements ''conversation'' now db2)"

definition order_by_timestamp_desc :: "Conversation list \<Rightarrow> Conversation list" where
  \<comment> \<open>\<open>ORDER BY timestamp DESC\<close>; rows of equal timestamp stay in rowid order\<close>
  "order_by_timestamp_desc rows = sort_key (\<lambda>r. - timestamp r) rows"

definition sql_limit :: "int \<Rightarrow> 'a list \<Rightarrow> 'a list" where
  \<comment> \<open>\<open>LIMIT ?\<close>: SQLite puts no bound on the rows when the value is negative\<close>
  "sql_limit n rows = (if n < 0 then rows else take (nat n) rows)"

definition to_Conversation :: "Conversation \<Rightarrow> Conversation" where
  \<comment> \<open>\<open>model_used=row[6] if row[6] else "mistral"\<close>\<close>
  "to_Conversation row = row\<lparr>model_used := (if model_used row = [] then ''mistral'' else model_used row)\<rparr>"

definition get_recent_context :: "string \<Rightarrow> int \<Rightarrow> 'j database \<Rightarrow> Conversation list" where
  "get_recent_context session limit db =
     rev (map to_Conversation
            (sql_limit limit
               (order_by_timestamp_desc
                  (filter (\<lambda>r. session_name r = session) (conversations db)))))"

subsection \<open>The analysis cache\<close>

definition SUPPORTED_EXTENSIONS :: "string \<rightharpoonup> string" where
  "SUPPORTED_EXTENSIONS =
     map_of
       [(''.py'', ''python''), (''.js'', ''javascript''), (''.jsx'', ''javascript''),
        (''.ts'', ''typescript''), (''.tsx'', ''typescript''), (''.php'', ''php''),
        (''.java'', ''java''), (''.cpp'', ''cpp''), (''.c'', ''c''), (''.go'', ''go''),
        (''.rs'', ''rust''), (''.rb'', ''ruby''), (''.sh'', ''bash''), (''.sql'', ''sql'')]"

fun split_on :: "char \<Rightarrow> string \<Rightarrow> string list" where
  "split_on sep [] = [[]]"
| "split_on sep (c # cs) =
     (if c = sep then [] # split_on sep cs
      else (case split_on sep cs of p # ps \<Rightarrow> (c # p) # ps | [] \<Rightarrow> [[c]]))"

definition path_name :: "string \<Rightarrow> string" where
  \<comment> \<open>\<open>Path(p).name\<close>: the last component, empty and \<open>.\<close> components dropped\<close>
  "path_name p =
     (let parts = filter (\<lambda>c. c \<noteq> [] \<and> c \<noteq> ''.'') (split_on CHR ''/'' p)
      in if parts = [] then [] else last parts)"

definition path_suffix :: "string \<Rightarrow> string" where
  \<comment> \<open>\<open>Path(p).suffix\<close>: \<open>i = name.rfind('.')\<close>, then \<open>name[i:]\<close> if
      \<open>0 < i < len(name) - 1\<close>, else the empty string\<close>
  "path_suffix p =
     (let name = path_name p;
          after = length (takeWhile (\<lambda>c. c \<noteq> CHR ''.'') (rev name));
          i = length name - 1 - after
      in if CHR ''.'' \<in> set name \<and> 0 < i \<and> 0 < after then drop i name else [])"

datatype progress_step =
    Analyzing_file | Checking_cache | Found_cached_analysis | Analyzing_code_structure
  | Caching_results | Analysis_complete

definition insert_or_replace_code_analysis ::
  "string \<Rightarrow> string \<Rightarrow> string \<Rightarrow> nat \<Rightarrow> rat \<Rightarrow> 'j \<Rightarrow> int \<Rightarrow> 'j database \<Rightarrow> 'j database" where
  \<comment> \<open>\<open>INSERT OR REPLACE INTO code_analysis (file_path, file_hash, language, lines_of_code,
      complexity_score, analysis_data) VALUES (...)\<close>: the rows in conflict on the
      \<open>UNIQUE\<close> column \<open>file_path\<close> are deleted, then the row is inserted\<close>
  "insert_or_replace_code_analysis path hash lang loc score data now db =
     (let n = Suc (code_analysis_seq db)
      in db\<lparr>code_analysis :=
               filter (\<lambda>r. ca_file_path r \<noteq> path) (code_analysis db) @
               [\<lparr>ca_id = n, ca_file_path = path, ca_file_hash = hash, ca_language = lang,
                 ca_lines_of_code = loc, ca_complexity_score = score, ca_analysis_data = data,
                 ca_timestamp = now\<rparr>],
             code_analysis_seq := n\<rparr>)"

definition cache_store ::
  "'j runtime \<Rightarrow> string \<Rightarrow> string \<Rightarrow> CodeAnalysis \<Rightarrow> int \<Rightarrow> 'j database \<Rightarrow> 'j database" where
  \<comment> \<open>the write-back of \<open>analyze_file_with_progress\<close>: the statement above with the
      values \<open>(file_path, file_hash, analysis.language, analysis.lines_of_code,
      analysis.complexity_score, json.dumps(analysis.__dict__, default=str))\<close>\<close>
  "cache_store rt path hash analysis now db =
     insert_or_replace_code_analysis path hash (language analysis) (lines_of_code analysis)
       (complexity_score analysis) (json_dumps rt analysis) now db"

definition select_analysis_data :: "string \<Rightarrow> string \<Rightarrow> 'j database \<Rightarrow> 'j option" where
  \<comment> \<open>\<open>SELECT analysis_data FROM code_analysis WHERE file_path = ? AND file_hash = ?\<close>,
      then \<open>fetchone()\<close>\<close>
  "select_analysis_data path hash db =
     map_option ca_analysis_data
       (find (\<lambda>r. ca_file_path r = path \<and> ca_file_hash r = hash) (code_analysis db))"

definition analyze_uncached ::
  "'j runtime \<Rightarrow> filesystem \<Rightarrow> string \<Rightarrow> string + CodeAnalysis" where
  \<comment> \<open>the choice of extractor in \<open>analyze_file_with_progress\<close>\<close>
  "analyze_uncached rt fs path =
     (let ext = lower (path_suffix path);
          lang = (case SUPPORTED_EXTENSIONS ext of Some l \<Rightarrow> l | None \<Rightarrow> ''unknown'')
      in if lang = ''python'' then analyze_python_file rt fs path
         else Inr (analyze_generic_file rt fs path lang))"

definition analyze_file_with_progress ::
  "'j runtime \<Rightarrow> filesystem \<Rightarrow> int \<Rightarrow> string \<Rightarrow> 'j database
     \<Rightarrow> (string + CodeAnalysis option) \<times> 'j database \<times> progress_step list" where
  \<comment> \<open>returns the result (\<open>Inl\<close>: the exception that leaves the function), the database
      afterwards and the descriptions the progress display was given; the store itself
      is taken to work\<close>
  "analyze_file_with_progress rt fs now path db =
     (if fs path = Absent then (Inr None, db, [])
      else
        let file_hash = get_file_hash rt fs path
        in if file_hash = [] then (Inr None, db, [Analyzing_file])
           else
             let row = select_analysis_data path file_hash db;
                 cached = (case row of Some data \<Rightarrow> json_loads rt data | None \<Rightarrow> None);
                 seen = [Analyzing_file, Checking_cache] @
                        (if row = None then [] else [Found_cached_analysis])
             in case cached of
                  Some a \<Rightarrow> (Inr (Some a), db, seen)
                | None \<Rightarrow>
                    (case analyze_uncached rt fs path of
                       Inl e \<Rightarrow> (Inl e, db, seen @ [Analyzing_code_structure])
                     | Inr analysis \<Rightarrow>
                         let db1 = cache_store rt path file_hash analysis now db
                         in (Inr (Some analysis), update_achievements ''code_analysis'' now db1,
                             seen @ [Analyzing_code_structure, Caching_results,
                                     Analysis_complete])))"

subsection \<open>The unknown branch of the single-file program\<close>

definition legacy_analyze_unknown ::
  "'j runtime \<Rightarrow> filesystem \<Rightarrow> string \<Rightarrow> string + CodeAnalysis" where
  \<comment> \<open>\<open>analyze_file\<close> of \<open>sarek.py\<close>, the branch for language \<open>unknown\<close>; its record has
      no \<open>security_issues\<close>, and a failing \<open>open\<close> is not caught there\<close>
  "legacy_analyze_unknown rt fs path =
     (case read_text rt fs path of
        Inl e \<Rightarrow> Inl e
      | Inr content \<Rightarrow>
          Inr \<lparr>file_path = path, language = ''unknown'',
               lines_of_code = length (splitlines content), complexity_score = 0,
               functions' = [], classes = [], imports' = [],
               issues = [''Unknown file type - limited analysis available''],
               security_issues = None\<rparr>)"

section \<open>The complexity measure as the specification words it\<close>

text \<open>
  The specification counts, for every function definition of the tree, the decision
  points inside that definition's subtree. These definitions follow those words by
  recursion over the tree; they do not use the queue of \<open>ast.walk\<close>.
\<close>

fun preorder :: "py_ast \<Rightarrow> py_ast list" where
  \<comment> \<open>the nodes of a subtree, its root first\<close>
  "preorder (Node k cs) = Node k cs # concat (map preorder cs)"

fun is_function_def :: "py_ast \<Rightarrow> bool" where
  "is_function_def (Node (FunctionDef name) cs) = True"
| "is_function_def (Node k cs) = False"

definition decision_points_in :: "py_ast \<Rightarrow> nat" where
  "decision_points_in t = length (filter is_decision (preorder t))"

definition function_definitions :: "py_ast \<Rightarrow> py_ast list" where
  "function_definitions tree = filter is_function_def (preorder tree)"

definition total_decision_points :: "py_ast \<Rightarrow> nat" where
  "total_decision_points tree = sum_list (map decision_points_in (function_definitions tree))"

section \<open>Example values\<close>

definition example_runtime :: "CodeAnalysis runtime" where
  \<comment> \<open>stand-ins for the library: an injective digest, text that decodes to itself, a parser
      that rejects every source, a regular expression engine that finds nothing, and the
      analysis itself as its serialised form\<close>
  "example_runtime =
     \<lparr>md5_hexdigest = (\<lambda>b. ''md5:'' @ b), decode_text = (\<lambda>b. b),
      ast_parse = (\<lambda>src. SyntaxError ''invalid syntax''),
      re_search = (\<lambda>pattern src. False), re_findall = (\<lambda>pattern src. []),
      json_dumps = (\<lambda>a. a), json_loads = Some\<rparr>"

definition two_functions :: py_ast where
  \<comment> \<open>a module with \<open>def a\<close> holding three \<open>if\<close> statements and \<open>def b\<close> holding one
      \<open>for\<close> loop\<close>
  "two_functions =
     Node Other_node
       [Node (FunctionDef ''a'')
          [Node Other_node [],
           Node If_stmt [Node Other_node [], Node If_stmt [Node Other_node []]],
           Node If_stmt [Node Other_node []]],
        Node (FunctionDef ''b'') [Node Other_node [], Node For_stmt [Node Other_node []]]]"

definition unlocked_db :: "unit database" where
  "unlocked_db = init_db\<lparr>achievements := [''git_ninja'' \<mapsto>
     \<lparr>ach_description = ''Achievement: git_ninja'', unlocked = True, progress = 25,
      target = 25, unlocked_at = Some 40\<rparr>]\<rparr>"

definition locked_db :: "unit database" where
  "locked_db = init_db\<lparr>achievements := [''git_ninja'' \<mapsto>
     \<lparr>ach_description = ''Achievement: git_ninja'', unlocked = False, progress = 23,
      target = 25, unlocked_at = None\<rparr>]\<rparr>"


definition notes_v1 :: filesystem where
  "notes_v1 = (\<lambda>p. if p = ''notes.txt'' then File ''hello'' else Absent)"

definition notes_v2 :: filesystem where
  "notes_v2 = (\<lambda>p. if p = ''notes.txt'' then File ''hello TODO'' else Absent)"

definition sample_analysis :: "string \<Rightarrow> nat \<Rightarrow> CodeAnalysis" where
  "sample_analysis p n =
     \<lparr>file_path = p, language = ''unknown'', lines_of_code = n, complexity_score = 0,
      functions' = [], classes = [], imports' = [], issues = [], security_issues = Some []\<rparr>"

definition two_functions_runtime :: "CodeAnalysis runtime" where
  "two_functions_runtime = example_runtime\<lparr>ast_parse := (\<lambda>src. Parsed two_functions)\<rparr>"

definition no_functions_runtime :: "CodeAnalysis runtime" where
  "no_functions_runtime =
     example_runtime\<lparr>ast_parse := (\<lambda>src. Parsed (Node Other_node [Node If_stmt []]))\<rparr>"

definition some_file :: filesystem where
  "some_file = (\<lambda>p. File ''x = 1'')"

definition file_with :: "bytes \<Rightarrow> filesystem" where
  "file_with content = (\<lambda>p. File content)"

definition deep_source :: string where
  \<comment> \<open>\<open>'a' + '.b' * 200000\<close>: an attribute chain too deep for the parser\<close>
  "deep_source = ''a'' @ concat (replicate 200000 ''.b'')"

definition deep_runtime :: "CodeAnalysis runtime" where
  \<comment> \<open>\<open>ast.parse\<close> raises \<open>RecursionError\<close> on \<open>deep_source\<close>\<close>
  "deep_runtime =
     example_runtime\<lparr>ast_parse := (\<lambda>src.
        if src = deep_source then OtherError ''RecursionError: maximum recursion depth exceeded''
        else SyntaxError ''invalid syntax'')\<rparr>"

definition comment_runtime :: "CodeAnalysis runtime" where
  \<comment> \<open>a source of comments only parses to a module without statements\<close>
  "comment_runtime = example_runtime\<lparr>ast_parse := (\<lambda>src. Parsed (Node Other_node []))\<rparr>"

definition same_second :: "unit database" where
  \<comment> \<open>three turns of session \<open>s\<close> within one second\<close>
  "same_second =
     save_conversation ''s'' ''u3'' ''a3'' [] ''mistral'' 10
       (save_conversation ''s'' ''u2'' ''a2'' [] ''mistral'' 10
         (save_conversation ''s'' ''u1'' ''a1'' [] ''mistral'' 10 init_db))"

section \<open>Achievements: the unlock state machine\<close>

lemmas increment_defs =
  increment_achievement_def insert_or_ignore_achievement_def update_progress_def
  select_reached_def update_unlocked_def

lemma increment_fresh:
  "achievements db name = None \<Longrightarrow>
   achievements (increment_achievement name tgt now db) name =
     Some \<lparr>ach_description = ''Achievement: '' @ name, unlocked = (tgt \<le> 1), progress = 1,
           target = tgt, unlocked_at = (if tgt \<le> 1 then Some now else None)\<rparr>"
  by (simp add: increment_defs)

lemma increment_unlocked:
  "achievements db name = Some row \<Longrightarrow> unlocked row \<Longrightarrow>
   increment_achievement name tgt now db = db"
  by (simp add: increment_defs)

lemma increment_locked:
  "achievements db name = Some row \<Longrightarrow> \<not> unlocked row \<Longrightarrow>
   achievements (increment_achievement name tgt now db) name =
     Some (row\<lparr>progress := progress row + 1,
               unlocked := (target row \<le> progress row + 1),
               unlocked_at := (if target row \<le> progress row + 1 then Some now
                               else unlocked_at row)\<rparr>)"
  by (simp add: increment_defs)

lemma increment_tables:
  "conversations (increment_achievement name tgt now db) = conversations db \<and>
   sessions (increment_achievement name tgt now db) = sessions db \<and>
   code_analysis (increment_achievement name tgt now db) = code_analysis db \<and>
   conversations_seq (increment_achievement name tgt now db) = conversations_seq db \<and>
   code_analysis_seq (increment_achievement name tgt now db) = code_analysis_seq db"
  by (simp add: increment_achievement_def Let_def)

lemma fold_increment_tables:
  "conversations (fold (\<lambda>(name, tgt). increment_achievement name tgt now) pairs db) = conversations db \<and>
   sessions (fold (\<lambda>(name, tgt). increment_achievement name tgt now) pairs db) = sessions db \<and>
   code_analysis (fold (\<lambda>(name, tgt). increment_achievement name tgt now) pairs db) = code_analysis db \<and>
   conversations_seq (fold (\<lambda>(name, tgt). increment_achievement name tgt now) pairs db) = conversations_seq db \<and>
   code_analysis_seq (fold (\<lambda>(name, tgt). increment_achievement name tgt now) pairs db) = code_analysis_seq db"
proof (induction pairs arbitrary: db)
  case Nil
  show ?case by simp
next
  case (Cons p pairs)
  obtain name tgt where p: "p = (name, tgt)" by (cases p)
  show ?case using Cons [of "increment_achievement name tgt now db"]
    by (simp add: p increment_tables)
qed

lemma update_achievements_tables:
  "conversations (update_achievements action now db) = conversations db"
  "sessions (update_achievements action now db) = sessions db"
  "code_analysis (update_achievements action now db) = code_analysis db"
  "conversations_seq (update_achievements action now db) = conversations_seq db"
  "code_analysis_seq (update_achievements action now db) = code_analysis_seq db"
  by (simp_all add: update_achievements_def fold_increment_tables split: option.splits)

text \<open>
  Claim C3. \<open>increment_achievement\<close> creates a missing row with progress 0 and leaves an
  existing row as it is (the \<open>INSERT OR IGNORE\<close>); on an unlocked row the whole call
  changes nothing in the database; on a locked row it adds exactly 1 to the progress and
  sets \<open>unlocked\<close> (with \<open>unlocked_at\<close>) exactly when the new progress has reached the
  row's target; a row that was missing therefore ends with progress 1. With target 3,
  three calls on a missing row give \<open>unlocked\<close> = false, false, true with progress 1, 2,
  3, and a fourth call returns the database unchanged.
\<close>

theorem increment_achievement_state_machine:
  fixes db :: "'j database"
  shows
  "(achievements db name = None \<longrightarrow>
      insert_or_ignore_achievement name tgt (achievements db) name =
        Some \<lparr>ach_description = ''Achievement: '' @ name, unlocked = False, progress = 0,
              target = tgt, unlocked_at = None\<rparr>) \<and>
   (achievements db name \<noteq> None \<longrightarrow>
      insert_or_ignore_achievement name tgt (achievements db) = achievements db) \<and>
   (\<forall>row. achievements db name = Some row \<and> unlocked row \<longrightarrow>
      increment_achievement name tgt now db = db) \<and>
   (\<forall>row. achievements db name = Some row \<and> \<not> unlocked row \<longrightarrow>
      achievements (increment_achievement name tgt now db) name =
        Some (row\<lparr>progress := progress row + 1,
                  unlocked := (target row \<le> progress row + 1),
                  unlocked_at := (if target row \<le> progress row + 1 then Some now
                                  else unlocked_at row)\<rparr>)) \<and>
   (achievements db name = None \<longrightarrow>
      achievements (increment_achievement name tgt now db) name =
        Some \<lparr>ach_description = ''Achievement: '' @ name, unlocked = (tgt \<le> 1), progress = 1,
              target = tgt, unlocked_at = (if tgt \<le> 1 then Some now else None)\<rparr>) \<and>
   (achievements db name = None \<longrightarrow>
      (let d1 = increment_achievement name 3 t1 db;
           d2 = increment_achievement name 3 t2 d1;
           d3 = increment_achievement name 3 t3 d2;
           d4 = increment_achievement name 3 t4 d3
       in map (\<lambda>d. map_option unlocked (achievements d name)) [db, d1, d2, d3] =
            [None, Some False, Some False, Some True] \<and>
          map (\<lambda>d. map_option progress (achievements d name)) [d1, d2, d3] =
            [Some 1, Some 2, Some 3] \<and>
          map_option unlocked_at (achievements d3 name) = Some (Some t3) \<and>
          d4 = d3))"
proof (intro conjI impI allI)
  assume fresh: "achievements db name = None"
  then show "insert_or_ignore_achievement name tgt (achievements db) name =
      Some \<lparr>ach_description = ''Achievement: '' @ name, unlocked = False, progress = 0,
            target = tgt, unlocked_at = None\<rparr>"
    by (simp add: insert_or_ignore_achievement_def)
  from fresh show "achievements (increment_achievement name tgt now db) name =
      Some \<lparr>ach_description = ''Achievement: '' @ name, unlocked = (tgt \<le> 1), progress = 1,
            target = tgt, unlocked_at = (if tgt \<le> 1 then Some now else None)\<rparr>"
    by (rule increment_fresh)
  define d1 where "d1 = increment_achievement name 3 t1 db"
  define d2 where "d2 = increment_achievement name 3 t2 d1"
  define d3 where "d3 = increment_achievement name 3 t3 d2"
  define d4 where "d4 = increment_achievement name 3 t4 d3"
  have r1: "achievements d1 name =
      Some \<lparr>ach_description = ''Achievement: '' @ name, unlocked = False, progress = 1,
            target = 3, unlocked_at = None\<rparr>"
    unfolding d1_def using increment_fresh [OF fresh, of 3 t1] by simp
  have r2: "achievements d2 name =
      Some \<lparr>ach_description = ''Achievement: '' @ name, unlocked = False, progress = 2,
            target = 3, unlocked_at = None\<rparr>"
    unfolding d2_def using increment_locked [OF r1, of 3 t2] by simp
  have r3: "achievements d3 name =
      Some \<lparr>ach_description = ''Achievement: '' @ name, unlocked = True, progress = 3,
            target = 3, unlocked_at = Some t3\<rparr>"
    unfolding d3_def using increment_locked [OF r2, of 3 t3] by simp
  have r4: "d4 = d3"
    unfolding d4_def using increment_unlocked [OF r3, of 3 t4] by simp
  show "let d1 = increment_achievement name 3 t1 db;
           d2 = increment_achievement name 3 t2 d1;
           d3 = increment_achievement name 3 t3 d2;
           d4 = increment_achievement name 3 t4 d3
       in map (\<lambda>d. map_option unlocked (achievements d name)) [db, d1, d2, d3] =
            [None, Some False, Some False, Some True] \<and>
          map (\<lambda>d. map_option progress (achievements d name)) [d1, d2, d3] =
            [Some 1, Some 2, Some 3] \<and>
          map_option unlocked_at (achievements d3 name) = Some (Some t3) \<and>
          d4 = d3"
    using fresh r1 r2 r3 r4 unfolding d1_def d2_def d3_def d4_def Let_def by simp
next
  assume "achievements db name \<noteq> None"
  then show "insert_or_ignore_achievement name tgt (achievements db) = achievements db"
    by (auto simp: insert_or_ignore_achievement_def)
next
  fix row
  assume "achievements db name = Some row \<and> unlocked row"
  then show "increment_achievement name tgt now db = db"
    by (simp add: increment_unlocked)
next
  fix row
  assume "achievements db name = Some row \<and> \<not> unlocked row"
  then show "achievements (increment_achievement name tgt now db) name =
        Some (row\<lparr>progress := progress row + 1,
                  unlocked := (target row \<le> progress row + 1),
                  unlocked_at := (if target row \<le> progress row + 1 then Some now
                                  else unlocked_at row)\<rparr>)"
    by (simp add: increment_locked)
qed

theorem increment_achievement_state_machine_witness:
  "achievements (init_db :: unit database) ''code_analyzer'' = None \<and>
   map_option progress (achievements (increment_achievement ''code_analyzer'' 3 10
      (init_db :: unit database)) ''code_analyzer'') = Some 1 \<and>
   (let d3 = increment_achievement ''code_analyzer'' 3 12
               (increment_achievement ''code_analyzer'' 3 11
                 (increment_achievement ''code_analyzer'' 3 10 (init_db :: unit database)))
    in map_option unlocked (achievements d3 ''code_analyzer'') = Some True \<and>
       increment_achievement ''code_analyzer'' 3 13 d3 = d3) \<and>
   achievements unlocked_db ''git_ninja'' \<noteq> None \<and>
   insert_or_ignore_achievement ''git_ninja'' 25 (achievements unlocked_db) = achievements unlocked_db \<and>
   increment_achievement ''git_ninja'' 25 50 unlocked_db = unlocked_db \<and>
   map_option progress (achievements (increment_achievement ''git_ninja'' 25 50 locked_db) ''git_ninja'')
     = Some 24 \<and>
   map_option unlocked (achievements (increment_achievement ''git_ninja'' 25 50 locked_db) ''git_ninja'')
     = Some False"
  using increment_achievement_state_machine [of "init_db :: unit database" "''code_analyzer''" 3 10 10 11 12 13]
    increment_achievement_state_machine [of unlocked_db "''git_ninja''" 25 50]
    increment_achievement_state_machine [of locked_db "''git_ninja''" 25 50]
  by (simp add: init_db_def unlocked_db_def locked_db_def Let_def)

section \<open>Conversations and sessions\<close>

lemma sessions_save_conversation:
  "sessions (save_conversation session user_in ai_out context model now db) =
     (sessions db)(session \<mapsto> \<lparr>created_at = now, last_used = now, description = None,
                                mood = Some ''neutral''\<rparr>)"
  by (simp add: save_conversation_def Let_def update_achievements_tables)

lemma conversations_save_conversation:
  "conversations (save_conversation session user_in ai_out context model now db) =
     conversations db @
       [\<lparr>id' = Suc (conversations_seq db), session_name = session, timestamp = now,
         user_input = user_in, ai_response = ai_out, context_used = context,
         model_used = model\<rparr>]"
  by (simp add: save_conversation_def Let_def update_achievements_tables)

text \<open>
  Claim C7. The claim is that appending to an existing session updates only
  \<open>last_used\<close>. The statement \<open>INSERT OR REPLACE INTO sessions (name, last_used)\<close>
  replaces the whole row: a session first written at the instant 100 and written again
  at the instant 200 has \<open>created_at\<close> = 200 afterwards.
\<close>

theorem save_conversation_resets_created_at:
  "(let db1 = save_conversation ''work'' ''hi'' ''hello'' [] ''mistral'' 100 (init_db :: unit database);
        db2 = save_conversation ''work'' ''more'' ''sure'' [] ''mistral'' 200 db1
    in map_option created_at (sessions db1 ''work'') = Some 100 \<and>
       map_option created_at (sessions db2 ''work'') = Some 200)"
  by (simp add: Let_def sessions_save_conversation)




lemma same_second_conversations:
  "conversations same_second =
     [\<lparr>id' = 1, session_name = ''s'', timestamp = 10, user_input = ''u1'', ai_response = ''a1'',
       context_used = [], model_used = ''mistral''\<rparr>,
      \<lparr>id' = 2, session_name = ''s'', timestamp = 10, user_input = ''u2'', ai_response = ''a2'',
       context_used = [], model_used = ''mistral''\<rparr>,
      \<lparr>id' = 3, session_name = ''s'', timestamp = 10, user_input = ''u3'', ai_response = ''a3'',
       context_used = [], model_used = ''mistral''\<rparr>]"
  by (simp add: same_second_def conversations_save_conversation init_db_def
      save_conversation_def Let_def update_achievements_tables)




text \<open>
  Three turns written within one second have equal timestamps, and the query orders by
  timestamp alone: with limit 2 the newest turn is left out and the other two come
  newest first.
\<close>

lemma get_recent_context_same_second:
  "map user_input (get_recent_context ''s'' 2 same_second) = [''u2'', ''u1'']"
  by (simp add: get_recent_context_def sql_limit_def same_second_conversations
      order_by_timestamp_desc_def to_Conversation_def)

section \<open>The analysis cache\<close>

lemma code_analysis_cache_store:
  "code_analysis (cache_store rt path hash a now db) =
     filter (\<lambda>r. ca_file_path r \<noteq> path) (code_analysis db) @
       [\<lparr>ca_id = Suc (code_analysis_seq db), ca_file_path = path, ca_file_hash = hash,
         ca_language = language a, ca_lines_of_code = lines_of_code a,
         ca_complexity_score = complexity_score a, ca_analysis_data = json_dumps rt a,
         ca_timestamp = now\<rparr>]"
  by (simp add: cache_store_def insert_or_replace_code_analysis_def Let_def)

lemma cache_store_keeps_paths_distinct:
  assumes "distinct (map ca_file_path (code_analysis db))"
  shows "distinct (map ca_file_path (code_analysis (cache_store rt path hash a now db)))"
proof -
  have "distinct (map ca_file_path (filter (\<lambda>r. ca_file_path r \<noteq> path) (code_analysis db)))"
    using assms by (rule distinct_map_filter)
  then show ?thesis by (auto simp: code_analysis_cache_store)
qed

lemma fold_cache_store_distinct:
  "distinct (map ca_file_path (code_analysis db)) \<Longrightarrow>
   distinct (map ca_file_path
     (code_analysis (fold (\<lambda>(path, hash, a, now). cache_store rt path hash a now) ops db)))"
proof (induction ops arbitrary: db)
  case Nil
  then show ?case by simp
next
  case (Cons op ops)
  obtain path hash a now where op: "op = (path, hash, a, now)" by (cases op)
  show ?case
    using Cons.IH [OF cache_store_keeps_paths_distinct [OF Cons.prems, of rt path hash a now]]
    by (simp add: op)
qed

lemma find_after_replace:
  "P y \<Longrightarrow> \<forall>x. Q x \<longrightarrow> \<not> P x \<Longrightarrow> find P (filter Q xs @ [y]) = Some y"
  by (induction xs) auto

lemma find_none_after_replace:
  "\<not> P y \<Longrightarrow> \<forall>x. Q x \<longrightarrow> \<not> P x \<Longrightarrow> find P (filter Q xs @ [y]) = None"
  by (induction xs) auto

lemma select_after_store:
  "select_analysis_data path hash (cache_store rt path hash a now db) = Some (json_dumps rt a)"
  by (simp add: select_analysis_data_def code_analysis_cache_store find_after_replace)

lemma select_other_hash_after_store:
  "hash' \<noteq> hash \<Longrightarrow> select_analysis_data path hash' (cache_store rt path hash a now db) = None"
  by (simp add: select_analysis_data_def code_analysis_cache_store find_none_after_replace)

lemma select_update_achievements:
  "select_analysis_data path hash (update_achievements action now db) = select_analysis_data path hash db"
  by (simp add: select_analysis_data_def update_achievements_tables)

lemma find_SomeD:
  "find P xs = Some x \<Longrightarrow> x \<in> set xs \<and> P x"
  by (induction xs) (auto split: if_splits)

lemma select_unique:
  assumes uniq: "distinct (map ca_file_path (code_analysis db))"
    and sel: "select_analysis_data path hash db = Some data" and other: "hash' \<noteq> hash"
  shows "select_analysis_data path hash' db = None"
proof -
  let ?rows = "code_analysis db"
  from sel obtain r where
    found: "find (\<lambda>r. ca_file_path r = path \<and> ca_file_hash r = hash) ?rows = Some r"
    unfolding select_analysis_data_def by (cases "find (\<lambda>r. ca_file_path r = path \<and> ca_file_hash r = hash) ?rows") simp_all
  from find_SomeD [OF found]
  have r_in: "r \<in> set ?rows" and r_path: "ca_file_path r = path" and r_hash: "ca_file_hash r = hash"
    by blast+
  have inj: "inj_on ca_file_path (set ?rows)"
    using uniq unfolding distinct_map by blast
  have no_match: "\<not> (ca_file_path x = path \<and> ca_file_hash x = hash')" if x_in: "x \<in> set ?rows" for x
  proof
    assume m: "ca_file_path x = path \<and> ca_file_hash x = hash'"
    then have same: "ca_file_path x = ca_file_path r" using r_path by simp
    have "x = r" by (rule inj_onD [OF inj same x_in r_in])
    with m r_hash other show False by simp
  qed
  have "find (\<lambda>r. ca_file_path r = path \<and> ca_file_hash r = hash') ?rows = None"
    unfolding find_None_iff using no_match by blast
  then show ?thesis unfolding select_analysis_data_def by simp
qed

lemma request_cases:
  fixes rt :: "'j runtime"
  shows "analyze_file_with_progress rt fs now path db =
     (if fs path = Absent then (Inr None, db, [])
      else if get_file_hash rt fs path = [] then (Inr None, db, [Analyzing_file])
      else case (case select_analysis_data path (get_file_hash rt fs path) db of Some data \<Rightarrow> json_loads rt data | None \<Rightarrow> None) of
             Some a \<Rightarrow> (Inr (Some a), db, [Analyzing_file, Checking_cache, Found_cached_analysis])
           | None \<Rightarrow>
              (case analyze_uncached rt fs path of
                 Inl e \<Rightarrow>
                   (Inl e, db,
                    [Analyzing_file, Checking_cache] @
                    (if select_analysis_data path (get_file_hash rt fs path) db = None then [] else [Found_cached_analysis]) @
                    [Analyzing_code_structure])
               | Inr a \<Rightarrow>
                   (Inr (Some a),
                    update_achievements ''code_analysis'' now
                      (cache_store rt path (get_file_hash rt fs path) a now db),
                    [Analyzing_file, Checking_cache] @
                    (if select_analysis_data path (get_file_hash rt fs path) db = None then [] else [Found_cached_analysis]) @
                    [Analyzing_code_structure, Caching_results, Analysis_complete])))"
proof (cases "fs path = Absent")
  case True
  then show ?thesis by (simp add: analyze_file_with_progress_def)
next
  case present: False
  show ?thesis
  proof (cases "get_file_hash rt fs path = []")
    case True
    then show ?thesis using present by (simp add: analyze_file_with_progress_def)
  next
    case hashed: False
    show ?thesis
    proof (cases "select_analysis_data path (get_file_hash rt fs path) db")
      case None
      then show ?thesis using present hashed
        by (cases "analyze_uncached rt fs path")
           (simp_all add: analyze_file_with_progress_def Let_def)
    next
      case (Some data)
      then show ?thesis using present hashed
        by (cases "json_loads rt data"; cases "analyze_uncached rt fs path")
           (simp_all add: analyze_file_with_progress_def Let_def)
    qed
  qed
qed

lemma hit_after_request:
  fixes rt :: "'j runtime"
  assumes roundtrip: "\<And>a. json_loads rt (json_dumps rt a) = Some a"
    and first: "analyze_file_with_progress rt fs ta path db = (r1, db1, log1)"
  shows "analyze_file_with_progress rt fs tb path db1 =
           (r1, db1, if \<exists>a. r1 = Inr (Some a)
                     then [Analyzing_file, Checking_cache, Found_cached_analysis]
                     else log1)"
proof -
  let ?h = "get_file_hash rt fs path"
  let ?c = "case select_analysis_data path ?h db of Some data \<Rightarrow> json_loads rt data | None \<Rightarrow> None"
  consider (absent) "fs path = Absent" | (nohash) "fs path \<noteq> Absent" "?h = []"
    | (hit) a where "fs path \<noteq> Absent" "?h \<noteq> []" "?c = Some a"
    | (raised) e where "fs path \<noteq> Absent" "?h \<noteq> []" "?c = None"
        "analyze_uncached rt fs path = Inl e"
    | (miss) a where "fs path \<noteq> Absent" "?h \<noteq> []" "?c = None"
        "analyze_uncached rt fs path = Inr a"
    by (cases ?c; cases "analyze_uncached rt fs path") auto
  then show ?thesis
  proof cases
    case absent
    then show ?thesis using first by (auto simp: request_cases)
  next
    case nohash
    then show ?thesis using first by (auto simp: request_cases)
  next
    case hit
    then have "analyze_file_with_progress rt fs ta path db =
        (Inr (Some a), db, [Analyzing_file, Checking_cache, Found_cached_analysis])"
      by (simp add: request_cases)
    with first have "r1 = Inr (Some a)" "db1 = db" by simp_all
    then show ?thesis using hit by (simp add: request_cases)
  next
    case raised
    define steps where "steps = [Analyzing_file, Checking_cache] @
           (if select_analysis_data path ?h db = None then [] else [Found_cached_analysis]) @
           [Analyzing_code_structure]"
    have same: "analyze_file_with_progress rt fs t path db = (Inl e, db, steps)" for t
      using raised by (simp add: request_cases steps_def)
    have "r1 = Inl e" "db1 = db" "log1 = steps"
      using first same [of ta] by simp_all
    then show ?thesis using same [of tb] by simp
  next
    case miss
    have db1: "db1 = update_achievements ''code_analysis'' ta (cache_store rt path ?h a ta db)"
      and r1: "r1 = Inr (Some a)"
      using miss first by (simp_all add: request_cases)
    have "select_analysis_data path ?h db1 = Some (json_dumps rt a)"
      by (simp add: db1 select_update_achievements select_after_store)
    then show ?thesis using miss(1,2) r1 by (simp add: request_cases roundtrip)
  qed
qed

lemma steps_of_request:
  fixes rt :: "'j runtime"
  assumes first: "analyze_file_with_progress rt fs ta path db = (r1, db1, log1)"
    and returned: "\<forall>e. r1 \<noteq> Inl e"
    and nores: "\<forall>a. r1 \<noteq> Inr (Some a)"
  shows "Analyzing_code_structure \<notin> set log1"
proof -
  let ?h = "get_file_hash rt fs path"
  let ?c = "case select_analysis_data path ?h db of Some data \<Rightarrow> json_loads rt data | None \<Rightarrow> None"
  have early: "fs path = Absent \<or> ?h = []"
  proof (rule ccontr)
    assume "\<not> (fs path = Absent \<or> ?h = [])"
    then have "(\<exists>e. r1 = Inl e) \<or> (\<exists>a. r1 = Inr (Some a))"
      using first
      by (cases ?c; cases "analyze_uncached rt fs path") (auto simp: request_cases)
    with returned nores show False by blast
  qed
  then show ?thesis using first by (auto simp: request_cases split: if_splits)
qed

lemma stored_digest_after_request:
  fixes rt :: "'j runtime"
  assumes uniq: "distinct (map ca_file_path (code_analysis db))"
    and isfile: "fs path = File b" and digest: "md5_hexdigest rt b \<noteq> []"
    and first: "analyze_file_with_progress rt fs ta path db = (r1, db1, log1)"
    and other: "hash' \<noteq> md5_hexdigest rt b"
    and returned: "\<forall>e. r1 \<noteq> Inl e"
  shows "select_analysis_data path hash' db1 = None"
proof -
  let ?h = "get_file_hash rt fs path"
  have h: "?h = md5_hexdigest rt b" by (simp add: get_file_hash_def isfile)
  let ?c = "case select_analysis_data path ?h db of Some data \<Rightarrow> json_loads rt data | None \<Rightarrow> None"
  show ?thesis
  proof (cases ?c)
    case None
    from returned obtain a where a: "analyze_uncached rt fs path = Inr a"
      using first isfile digest h None
      by (cases "analyze_uncached rt fs path") (auto simp: request_cases)
    then have "db1 = update_achievements ''code_analysis'' ta (cache_store rt path ?h a ta db)"
      using first isfile digest h None by (simp add: request_cases)
    then show ?thesis using other h
      by (simp add: select_update_achievements select_other_hash_after_store)
  next
    case (Some a)
    then have db1: "db1 = db" using first isfile digest h by (simp add: request_cases)
    from Some obtain data where "select_analysis_data path ?h db = Some data"
      by (auto split: option.splits)
    then show ?thesis using select_unique [OF uniq _ other] h db1 by simp
  qed
qed

text \<open>
  Claim C1. Two requests for the same path with the file unchanged between them: the
  second gives what the first gave and leaves the database as it is, and when the first
  returned (no exception of the parser left it) the second never reaches the extractor:
  the step "Analyzing code structure" is not among its progress steps. When the bytes
  change to ones of another digest, no row matches \<open>(path, new digest)\<close>; the request
  runs the extractor on the new content, and when the extractor returns an analysis the
  request returns it and writes it back under the new digest, and the request after that
  is a hit again. The digest function and the serialisation are those of the library:
  the round trip \<open>json_loads (json_dumps a) = Some a\<close> is assumed, and the second part is
  stated for every change of the bytes that changes the digest.
\<close>

theorem analysis_cache_hit_and_invalidation:
  fixes rt :: "'j runtime"
  assumes roundtrip: "\<And>a. json_loads rt (json_dumps rt a) = Some a"
  shows
  "(case analyze_file_with_progress rt fs ta path db of (r1, db1, log1) \<Rightarrow>
      (case analyze_file_with_progress rt fs tb path db1 of (r2, db2, log2) \<Rightarrow>
         r2 = r1 \<and> db2 = db1 \<and>
         ((\<forall>e. r1 \<noteq> Inl e) \<longrightarrow> Analyzing_code_structure \<notin> set log2))) \<and>
   (distinct (map ca_file_path (code_analysis db)) \<and>
    fs path = File b \<and> fsn path = File bn \<and>
    md5_hexdigest rt b \<noteq> [] \<and> md5_hexdigest rt bn \<noteq> [] \<and>
    md5_hexdigest rt bn \<noteq> md5_hexdigest rt b \<longrightarrow>
      (case analyze_file_with_progress rt fs ta path db of (r1, db1, log1) \<Rightarrow>
         (\<forall>e. r1 \<noteq> Inl e) \<longrightarrow>
         select_analysis_data path (md5_hexdigest rt bn) db1 = None \<and>
         (case analyze_file_with_progress rt fsn tb path db1 of (r2, db2, log2) \<Rightarrow>
            Analyzing_code_structure \<in> set log2 \<and>
            (case analyze_uncached rt fsn path of
               Inl e \<Rightarrow> r2 = Inl e \<and> db2 = db1
             | Inr a \<Rightarrow>
                 r2 = Inr (Some a) \<and>
                 select_analysis_data path (md5_hexdigest rt bn) db2 = Some (json_dumps rt a) \<and>
                 (case analyze_file_with_progress rt fsn tc path db2 of (r3, db3, log3) \<Rightarrow>
                    r3 = r2 \<and> db3 = db2 \<and> Analyzing_code_structure \<notin> set log3)))))"
proof (intro conjI impI)
  obtain r1 db1 log1 where first: "analyze_file_with_progress rt fs ta path db = (r1, db1, log1)"
    by (cases "analyze_file_with_progress rt fs ta path db") auto
  note again = hit_after_request [OF roundtrip first, of tb]
  have quiet: "Analyzing_code_structure \<notin> set
      (if \<exists>a. r1 = Inr (Some a) then [Analyzing_file, Checking_cache, Found_cached_analysis]
       else log1)" if "\<forall>e. r1 \<noteq> Inl e"
    using steps_of_request [OF first that] by auto
  show "case analyze_file_with_progress rt fs ta path db of (r1, db1, log1) \<Rightarrow>
      (case analyze_file_with_progress rt fs tb path db1 of (r2, db2, log2) \<Rightarrow>
         r2 = r1 \<and> db2 = db1 \<and>
         ((\<forall>e. r1 \<noteq> Inl e) \<longrightarrow> Analyzing_code_structure \<notin> set log2))"
    using quiet by (simp add: first again del: set_simps)
  assume hyps: "distinct (map ca_file_path (code_analysis db)) \<and>
    fs path = File b \<and> fsn path = File bn \<and>
    md5_hexdigest rt b \<noteq> [] \<and> md5_hexdigest rt bn \<noteq> [] \<and>
    md5_hexdigest rt bn \<noteq> md5_hexdigest rt b"
  let ?h' = "md5_hexdigest rt bn"
  have h': "get_file_hash rt fsn path = ?h'" using hyps by (simp add: get_file_hash_def)
  have rest: "select_analysis_data path ?h' db1 = None \<and>
         (case analyze_file_with_progress rt fsn tb path db1 of (r2, db2, log2) \<Rightarrow>
            Analyzing_code_structure \<in> set log2 \<and>
            (case analyze_uncached rt fsn path of
               Inl e \<Rightarrow> r2 = Inl e \<and> db2 = db1
             | Inr a \<Rightarrow>
                 r2 = Inr (Some a) \<and>
                 select_analysis_data path ?h' db2 = Some (json_dumps rt a) \<and>
                 (case analyze_file_with_progress rt fsn tc path db2 of (r3, db3, log3) \<Rightarrow>
                    r3 = r2 \<and> db3 = db2 \<and> Analyzing_code_structure \<notin> set log3)))"
    if returned: "\<forall>e. r1 \<noteq> Inl e"
  proof -
    have stale: "select_analysis_data path ?h' db1 = None"
      using stored_digest_after_request [OF _ _ _ first _ returned, of b ?h'] hyps by simp
    show ?thesis
    proof (cases "analyze_uncached rt fsn path")
      case (Inl e)
      then have "analyze_file_with_progress rt fsn tb path db1 =
          (Inl e, db1, [Analyzing_file, Checking_cache, Analyzing_code_structure])"
        using hyps stale h' by (simp add: request_cases)
      then show ?thesis using stale Inl by simp
    next
      case (Inr a)
      define db2 where
        "db2 = update_achievements ''code_analysis'' tb (cache_store rt path ?h' a tb db1)"
      have second: "analyze_file_with_progress rt fsn tb path db1 =
          (Inr (Some a), db2, [Analyzing_file, Checking_cache, Analyzing_code_structure,
                               Caching_results, Analysis_complete])"
        using hyps stale h' Inr by (simp add: request_cases db2_def)
      have stored: "select_analysis_data path ?h' db2 = Some (json_dumps rt a)"
        by (simp add: db2_def select_update_achievements select_after_store)
      have third: "analyze_file_with_progress rt fsn tc path db2 =
          (Inr (Some a), db2, [Analyzing_file, Checking_cache, Found_cached_analysis])"
        using hit_after_request [OF roundtrip second, of tc] by simp
      show ?thesis by (simp add: stale second stored third Inr)
    qed
  qed
  show "case analyze_file_with_progress rt fs ta path db of (r1, db1, log1) \<Rightarrow>
         (\<forall>e. r1 \<noteq> Inl e) \<longrightarrow>
         select_analysis_data path (md5_hexdigest rt bn) db1 = None \<and>
         (case analyze_file_with_progress rt fsn tb path db1 of (r2, db2, log2) \<Rightarrow>
            Analyzing_code_structure \<in> set log2 \<and>
            (case analyze_uncached rt fsn path of
               Inl e \<Rightarrow> r2 = Inl e \<and> db2 = db1
             | Inr a \<Rightarrow>
                 r2 = Inr (Some a) \<and>
                 select_analysis_data path (md5_hexdigest rt bn) db2 = Some (json_dumps rt a) \<and>
                 (case analyze_file_with_progress rt fsn tc path db2 of (r3, db3, log3) \<Rightarrow>
                    r3 = r2 \<and> db3 = db2 \<and> Analyzing_code_structure \<notin> set log3)))"
    using rest by (simp add: first)
qed

theorem analysis_cache_hit_and_invalidation_witness:
  "(\<forall>a. json_loads example_runtime (json_dumps example_runtime a) = Some a) \<and>
   distinct (map ca_file_path (code_analysis (init_db :: CodeAnalysis database))) \<and>
   notes_v1 ''notes.txt'' = File ''hello'' \<and> notes_v2 ''notes.txt'' = File ''hello TODO'' \<and>
   md5_hexdigest example_runtime ''hello'' \<noteq> [] \<and>
   md5_hexdigest example_runtime ''hello TODO'' \<noteq> [] \<and>
   md5_hexdigest example_runtime ''hello TODO'' \<noteq> md5_hexdigest example_runtime ''hello'' \<and>
   analyze_uncached example_runtime notes_v2 ''notes.txt'' =
     Inr (analyze_generic_file example_runtime notes_v2 ''notes.txt'' ''unknown'') \<and>
   (case analyze_file_with_progress example_runtime notes_v1 1 ''notes.txt'' init_db of
      (r1, db1, log1) \<Rightarrow>
        (\<forall>e. r1 \<noteq> Inl e) \<and>
        (case analyze_file_with_progress example_runtime notes_v1 2 ''notes.txt'' db1 of
           (r2, db2, log2) \<Rightarrow> r2 = r1 \<and> db2 = db1 \<and> Analyzing_code_structure \<notin> set log2) \<and>
        (case analyze_file_with_progress example_runtime notes_v2 2 ''notes.txt'' db1 of
           (r2, db2, log2) \<Rightarrow>
             r2 = Inr (Some (analyze_generic_file example_runtime notes_v2 ''notes.txt''
                               ''unknown'')) \<and>
             Analyzing_code_structure \<in> set log2 \<and>
             (case analyze_file_with_progress example_runtime notes_v2 3 ''notes.txt'' db2 of
                (r3, db3, log3) \<Rightarrow> r3 = r2 \<and> db3 = db2 \<and> Analyzing_code_structure \<notin> set log3)))"
proof -
  have roundtrip: "\<And>a. json_loads example_runtime (json_dumps example_runtime a) = Some a"
    by (simp add: example_runtime_def)
  have hyps: "distinct (map ca_file_path (code_analysis (init_db :: CodeAnalysis database))) \<and>
      notes_v1 ''notes.txt'' = File ''hello'' \<and> notes_v2 ''notes.txt'' = File ''hello TODO'' \<and>
      md5_hexdigest example_runtime ''hello'' \<noteq> [] \<and>
      md5_hexdigest example_runtime ''hello TODO'' \<noteq> [] \<and>
      md5_hexdigest example_runtime ''hello TODO'' \<noteq> md5_hexdigest example_runtime ''hello''"
    by (simp add: init_db_def notes_v1_def notes_v2_def example_runtime_def)
  have ext: "SUPPORTED_EXTENSIONS (lower (path_suffix ''notes.txt'')) = None" by code_simp
  have extractor: "analyze_uncached example_runtime fs ''notes.txt'' =
      Inr (analyze_generic_file example_runtime fs ''notes.txt'' ''unknown'')" for fs
    by (simp add: analyze_uncached_def Let_def ext)
  have miss: "select_analysis_data ''notes.txt'' h (init_db :: CodeAnalysis database) = None" for h
    by (simp add: select_analysis_data_def init_db_def)
  have h: "get_file_hash example_runtime notes_v1 ''notes.txt'' = md5_hexdigest example_runtime ''hello''"
    using hyps by (simp add: get_file_hash_def)
  have returned: "fst (analyze_file_with_progress example_runtime notes_v1 1 ''notes.txt'' init_db) =
      Inr (Some (analyze_generic_file example_runtime notes_v1 ''notes.txt'' ''unknown''))"
    using hyps by (simp add: request_cases h miss extractor)
  note inst = analysis_cache_hit_and_invalidation [OF roundtrip,
      where fs = notes_v1 and fsn = notes_v2 and ta = 1 and tb = 2 and tc = 3
        and path = "''notes.txt''" and db = init_db and b = "''hello''" and bn = "''hello TODO''"]
  from inst hyps roundtrip returned extractor [of notes_v2] show ?thesis
    by (auto split: prod.splits)
qed

text \<open>
  Claim C5. After any sequence of cache stores on a new database no two rows of
  \<open>code_analysis\<close> have the same \<open>file_path\<close>; a store, and a whole analysis request,
  keep that property; and two stores for one path with two digests leave exactly one
  row for the path, with the second digest and the second analysis.
\<close>

theorem code_analysis_one_row_per_path:
  fixes rt :: "'j runtime" and db :: "'j database"
  shows
  "distinct (map ca_file_path
      (code_analysis (fold (\<lambda>(path, hash, a, now). cache_store rt path hash a now) ops init_db))) \<and>
   (distinct (map ca_file_path (code_analysis db)) \<longrightarrow>
      distinct (map ca_file_path (code_analysis (cache_store rt path hash a now db))) \<and>
      distinct (map ca_file_path
        (code_analysis (fst (snd (analyze_file_with_progress rt fs now path db)))))) \<and>
   map (\<lambda>r. (ca_file_path r, ca_file_hash r, ca_analysis_data r))
     (filter (\<lambda>r. ca_file_path r = path)
        (code_analysis (cache_store rt path hash2 a2 now2 (cache_store rt path hash1 a1 now1 db)))) =
     [(path, hash2, json_dumps rt a2)]"
proof (intro conjI impI)
  have "distinct (map ca_file_path (code_analysis (init_db :: 'j database)))"
    by (simp add: init_db_def)
  then show "distinct (map ca_file_path
      (code_analysis (fold (\<lambda>(path, hash, a, now). cache_store rt path hash a now) ops init_db)))"
    by (rule fold_cache_store_distinct)
next
  assume uniq: "distinct (map ca_file_path (code_analysis db))"
  show "distinct (map ca_file_path (code_analysis (cache_store rt path hash a now db)))"
    using uniq by (rule cache_store_keeps_paths_distinct)
  show "distinct (map ca_file_path
        (code_analysis (fst (snd (analyze_file_with_progress rt fs now path db)))))"
    using uniq cache_store_keeps_paths_distinct [OF uniq]
    by (simp add: request_cases update_achievements_tables split: option.split sum.split)
next
  have "filter (\<lambda>r. ca_file_path r = path)
          (filter (\<lambda>r. ca_file_path r \<noteq> path) rows) = []" for rows :: "'j code_analysis_row list"
    by (induction rows) auto
  then show "map (\<lambda>r. (ca_file_path r, ca_file_hash r, ca_analysis_data r))
     (filter (\<lambda>r. ca_file_path r = path)
        (code_analysis (cache_store rt path hash2 a2 now2 (cache_store rt path hash1 a1 now1 db)))) =
     [(path, hash2, json_dumps rt a2)]"
    by (simp add: code_analysis_cache_store)
qed

theorem code_analysis_one_row_per_path_witness:
  "distinct (map ca_file_path (code_analysis (init_db :: CodeAnalysis database))) \<and>
   map (\<lambda>r. (ca_file_path r, ca_file_hash r))
     (code_analysis (cache_store example_runtime ''a.py'' ''d2'' (sample_analysis ''a.py'' 7) 2
        (cache_store example_runtime ''a.py'' ''d1'' (sample_analysis ''a.py'' 5) 1 init_db))) =
     [(''a.py'', ''d2'')] \<and>
   distinct (map ca_file_path
     (code_analysis (cache_store example_runtime ''b.js'' ''d3'' (sample_analysis ''b.js'' 1) 3
        (init_db :: CodeAnalysis database)))) \<and>
   distinct (map ca_file_path
     (code_analysis (fst (snd (analyze_file_with_progress example_runtime notes_v1 1 ''notes.txt''
        (init_db :: CodeAnalysis database))))))"
  using code_analysis_one_row_per_path [where rt = example_runtime
      and db = "init_db :: CodeAnalysis database" and path = "''b.js''" and hash = "''d3''"
      and a = "sample_analysis ''b.js'' 1" and now = 3]
    code_analysis_one_row_per_path [where rt = example_runtime
      and db = "init_db :: CodeAnalysis database" and path = "''notes.txt''" and now = 1
      and fs = notes_v1]
  by (simp add: init_db_def code_analysis_cache_store)

section \<open>The complexity score\<close>

lemma mset_walk_queue:
  "mset (walk_queue todo) = mset (concat (map preorder todo))"
proof (induction todo rule: walk_queue.induct)
  case 1
  show ?case by simp
next
  case (2 k cs todo)
  then show ?case by simp
qed

lemma mset_ast_walk: "mset (ast_walk t) = mset (preorder t)"
  by (simp add: ast_walk_def mset_walk_queue)

lemma count_by_mset:
  assumes "mset xs = mset ys"
  shows "length (filter P xs) = length (filter P ys)"
proof -
  have "mset (filter P xs) = mset (filter P ys)" using assms by simp
  then show ?thesis by (rule mset_eq_length)
qed

lemma sum_by_mset:
  fixes f :: "'a \<Rightarrow> nat"
  assumes "mset xs = mset ys"
  shows "sum_list (map f (filter P xs)) = sum_list (map f (filter P ys))"
proof -
  have "mset (map f (filter P xs)) = mset (map f (filter P ys))" using assms by simp
  then have "sum_mset (mset (map f (filter P xs))) = sum_mset (mset (map f (filter P ys)))"
    by (rule arg_cong)
  then show ?thesis by (simp only: sum_mset_sum_list)
qed

lemma decisions_in_walk: "length (filter is_decision (ast_walk t)) = decision_points_in t"
  unfolding decision_points_in_def by (rule count_by_mset) (rule mset_ast_walk)

lemma visit_function_def:
  "is_function_def n \<Longrightarrow>
   \<exists>name. visit n (fns, cls, imps, c) = (fns @ [name], cls, imps, c + decision_points_in n)"
  by (cases "(n, (fns, cls, imps, c))" rule: visit.cases) (simp_all add: decisions_in_walk)

lemma visit_other:
  "\<not> is_function_def n \<Longrightarrow>
   \<exists>cls' imps'. visit n (fns, cls, imps, c) = (fns, cls', imps', c)"
  by (cases "(n, (fns, cls, imps, c))" rule: visit.cases) simp_all

lemma fold_visit:
  "\<exists>fns' cls' imps'.
     fold visit ns (fns, cls, imps, c) =
       (fns', cls', imps', c + sum_list (map decision_points_in (filter is_function_def ns))) \<and>
     length fns' = length fns + length (filter is_function_def ns)"
proof (induction ns arbitrary: fns cls imps c)
  case Nil
  show ?case by simp
next
  case (Cons n ns)
  show ?case
  proof (cases "is_function_def n")
    case True
    from visit_function_def [OF True, of fns cls imps c] obtain name where
      v: "visit n (fns, cls, imps, c) = (fns @ [name], cls, imps, c + decision_points_in n)" by blast
    from Cons.IH [of "fns @ [name]" cls imps "c + decision_points_in n"]
    show ?thesis using True by (simp add: v add.assoc)
  next
    case False
    from visit_other [OF False, of fns cls imps c] obtain cls' imps' where
      v: "visit n (fns, cls, imps, c) = (fns, cls', imps', c)" by blast
    from Cons.IH [of fns cls' imps' c]
    show ?thesis using False by (simp add: v)
  qed
qed

lemma walk_totals:
  "\<exists>fns cls imps.
     fold visit (ast_walk tree) ([], [], [], 0) = (fns, cls, imps, total_decision_points tree) \<and>
     length fns = length (function_definitions tree)"
proof -
  have total: "sum_list (map decision_points_in (filter is_function_def (ast_walk tree))) =
      total_decision_points tree"
    unfolding total_decision_points_def function_definitions_def
    by (rule sum_by_mset) (rule mset_ast_walk)
  have count: "length (filter is_function_def (ast_walk tree)) = length (function_definitions tree)"
    unfolding function_definitions_def by (rule count_by_mset) (rule mset_ast_walk)
  from fold_visit [of "ast_walk tree" "[]" "[]" "[]" 0] show ?thesis
    by (simp add: total count)
qed

lemma python_score:
  assumes "fs path = File b" and "ast_parse rt (decode_text rt b) = Parsed tree"
  shows "\<exists>a. analyze_python_file rt fs path = Inr a \<and>
           complexity_score a =
             of_nat (total_decision_points tree) /
             of_nat (max (length (function_definitions tree)) 1) \<and>
           length (functions' a) = length (function_definitions tree)"
proof -
  from walk_totals [of tree] obtain fns cls imps where
    w: "fold visit (ast_walk tree) ([], [], [], 0) = (fns, cls, imps, total_decision_points tree)"
    and n: "length fns = length (function_definitions tree)" by blast
  show ?thesis
    using assms by (simp add: analyze_python_file_def read_text_def w n Let_def)
qed

text \<open>
  Claim C2. For a source that parses, the analyzer returns an analysis whose score,
  computed with the queue of \<open>ast.walk\<close>, is the number of decision points counted
  inside the subtree of every function definition of the tree, summed over the function
  definitions, divided by \<open>max (number of function definitions) 1\<close>; the list
  \<open>functions\<close> has one name per function definition; the score is never negative and is
  0 when the tree has no function definition. The score is a rational number here, the
  exact quotient that Python's float division rounds.
\<close>

theorem complexity_score_formula:
  fixes rt :: "'j runtime"
  assumes "fs path = File b" and "ast_parse rt (decode_text rt b) = Parsed tree"
  shows
  "\<exists>a. analyze_python_file rt fs path = Inr a \<and>
     complexity_score a =
       of_nat (total_decision_points tree) / of_nat (max (length (function_definitions tree)) 1) \<and>
     length (functions' a) = length (function_definitions tree) \<and>
     0 \<le> complexity_score a \<and>
     (function_definitions tree = [] \<longrightarrow> complexity_score a = 0)"
proof -
  from python_score [of fs path b rt tree, OF assms] obtain a where
    a: "analyze_python_file rt fs path = Inr a"
    and score: "complexity_score a =
       of_nat (total_decision_points tree) / of_nat (max (length (function_definitions tree)) 1)"
    and n: "length (functions' a) = length (function_definitions tree)"
    by blast
  have none: "total_decision_points tree = 0" if "function_definitions tree = []"
    using that by (simp add: total_decision_points_def)
  have "0 \<le> complexity_score a" by (simp add: score)
  moreover have "complexity_score a = 0" if "function_definitions tree = []"
    using none [OF that] by (simp add: score)
  ultimately show ?thesis using a score n by blast
qed

lemma two_functions_counts:
  "function_definitions two_functions =
     [Node (FunctionDef ''a'')
          [Node Other_node [],
           Node If_stmt [Node Other_node [], Node If_stmt [Node Other_node []]],
           Node If_stmt [Node Other_node []]],
      Node (FunctionDef ''b'') [Node Other_node [], Node For_stmt [Node Other_node []]]]"
  "total_decision_points two_functions = 4"
  by (simp_all add: two_functions_def function_definitions_def total_decision_points_def
      decision_points_in_def)

lemma no_functions_counts:
  "function_definitions (Node Other_node [Node If_stmt []]) = []"
  by (simp add: function_definitions_def)

text \<open>
  With two functions, one holding three \<open>if\<close> statements and one holding a loop, the
  score is \<open>(3 + 1) / 2 = 2\<close>.
\<close>

theorem complexity_score_formula_witness:
  "some_file ''m.py'' = File ''x = 1'' \<and>
   ast_parse two_functions_runtime (decode_text two_functions_runtime ''x = 1'') =
     Parsed two_functions \<and>
   length (function_definitions two_functions) = 2 \<and>
   total_decision_points two_functions = 3 + 1 \<and>
   map_sum id complexity_score (analyze_python_file two_functions_runtime some_file ''m.py'') =
     Inr 2 \<and>
   ast_parse no_functions_runtime (decode_text no_functions_runtime ''x = 1'') =
     Parsed (Node Other_node [Node If_stmt []]) \<and>
   function_definitions (Node Other_node [Node If_stmt []]) = [] \<and>
   map_sum id complexity_score (analyze_python_file no_functions_runtime some_file ''m.py'') =
     Inr 0"
proof -
  have f: "some_file ''m.py'' = File ''x = 1''" by (simp add: some_file_def)
  have p1: "ast_parse two_functions_runtime (decode_text two_functions_runtime ''x = 1'') =
      Parsed two_functions"
    by (simp add: two_functions_runtime_def)
  have p2: "ast_parse no_functions_runtime (decode_text no_functions_runtime ''x = 1'') =
      Parsed (Node Other_node [Node If_stmt []])"
    by (simp add: no_functions_runtime_def)
  from complexity_score_formula [where rt = two_functions_runtime and fs = some_file
      and path = "''m.py''" and b = "''x = 1''" and tree = two_functions, OF f p1]
  have r1: "map_sum id complexity_score
      (analyze_python_file two_functions_runtime some_file ''m.py'') = Inr 2"
    by (auto simp: two_functions_counts)
  from complexity_score_formula [where rt = no_functions_runtime and fs = some_file
      and path = "''m.py''" and b = "''x = 1''" and tree = "Node Other_node [Node If_stmt []]",
      OF f p2]
  have r2: "map_sum id complexity_score
      (analyze_python_file no_functions_runtime some_file ''m.py'') = Inr 0"
    by (auto simp: no_functions_counts)
  show ?thesis using f p1 p2 r1 r2 by (simp add: two_functions_counts no_functions_counts)
qed

section \<open>Quality issues\<close>

lemma str_count_pos_iff:
  "sub \<noteq> [] \<Longrightarrow> (0 < str_count s sub) = str_contains sub s"
proof (induction s sub rule: str_count.induct)
  case (1 s sub)
  show ?case
  proof (cases s)
    case Nil
    then show ?thesis using "1.prems" by (simp add: str_count.simps)
  next
    case (Cons c cs)
    show ?thesis
    proof (cases "startswith s sub")
      case True
      then show ?thesis using "1.prems" Cons by (simp add: str_count.simps [of "c # cs" sub])
    next
      case False
      then have "str_count s sub = str_count cs sub"
        using "1.prems" Cons by (simp add: str_count.simps [of "c # cs" sub])
      moreover have "(0 < str_count (tl s) sub) = str_contains sub (tl s)"
        using "1.IH"(2) "1.prems" Cons False by simp
      ultimately show ?thesis using False Cons by simp
    qed
  qed
qed

lemma python_issues_parsed:
  assumes "fs path = File b" and "ast_parse rt (decode_text rt b) = Parsed tree"
  shows "\<exists>a. analyze_python_file rt fs path = Inr a \<and>
           (''Contains TODO/FIXME comments'' \<in> set (issues a)) =
             (str_contains ''todo'' (lower (decode_text rt b)) \<or>
              str_contains ''fixme'' (lower (decode_text rt b))) \<and>
           (''Print statements found - consider using logging'' \<in> set (issues a)) =
             (str_contains ''print('' (decode_text rt b) \<and>
              \<not> str_contains ''debug'' (lower (decode_text rt b)))"
proof -
  obtain fns cls imps c where
    w: "fold visit (ast_walk tree) ([], [], [], 0) = (fns, cls, imps, c)"
    by (cases "fold visit (ast_walk tree) ([], [], [], 0)") auto
  show ?thesis
    using assms by (simp add: analyze_python_file_def read_text_def w Let_def)
qed

lemma python_syntax_error:
  assumes "fs path = File b" and "ast_parse rt (decode_text rt b) = SyntaxError e"
  shows "analyze_python_file rt fs path =
           Inr \<lparr>file_path = path, language = ''python'',
                lines_of_code = length (splitlines (decode_text rt b)), complexity_score = 0,
                functions' = [], classes = [], imports' = [],
                issues = [''Syntax Error: '' @ e], security_issues = Some []\<rparr>"
  using assms by (simp add: analyze_python_file_def read_text_def)

lemma python_parser_exception:
  assumes "fs path = File b" and "ast_parse rt (decode_text rt b) = OtherError e"
  shows "analyze_python_file rt fs path = Inl e"
  using assms by (simp add: analyze_python_file_def read_text_def)

lemma generic_unknown:
  assumes "fs path = File b"
  shows "analyze_generic_file rt fs path ''unknown'' =
           \<lparr>file_path = path, language = ''unknown'',
            lines_of_code = length (filter (\<lambda>line. strip line \<noteq> []) (splitlines (decode_text rt b))),
            complexity_score = 0, functions' = [], classes = [], imports' = [],
            issues =
              (if 500 < length (filter (\<lambda>line. strip line \<noteq> []) (splitlines (decode_text rt b)))
               then [''Large file - consider refactoring''] else []) @
              (if str_contains ''TODO'' (decode_text rt b) \<or> str_contains ''FIXME'' (decode_text rt b)
               then [''Contains TODO/FIXME comments''] else []),
            security_issues = Some []\<rparr>"
proof -
  have pos: "(0 < str_count (decode_text rt b) ''TODO'' + str_count (decode_text rt b) ''FIXME'') =
      (str_contains ''TODO'' (decode_text rt b) \<or> str_contains ''FIXME'' (decode_text rt b))"
    using str_count_pos_iff [of "''TODO''" "decode_text rt b"]
      str_count_pos_iff [of "''FIXME''" "decode_text rt b"] by auto
  show ?thesis using assms
    by (simp add: analyze_generic_file_def read_text_def Let_def pos del: add_gr_0)
qed

lemma generic_todo_issue:
  assumes "fs path = File b"
  shows "(''Contains TODO/FIXME comments'' \<in> set (issues (analyze_generic_file rt fs path lang))) =
           (str_contains ''TODO'' (decode_text rt b) \<or> str_contains ''FIXME'' (decode_text rt b))"
proof -
  have pos: "(0 < str_count (decode_text rt b) ''TODO'' + str_count (decode_text rt b) ''FIXME'') =
      (str_contains ''TODO'' (decode_text rt b) \<or> str_contains ''FIXME'' (decode_text rt b))"
    using str_count_pos_iff [of "''TODO''" "decode_text rt b"]
      str_count_pos_iff [of "''FIXME''" "decode_text rt b"] by auto
  show ?thesis using assms
    by (simp add: analyze_generic_file_def read_text_def Let_def pos split_beta del: add_gr_0)
qed

text \<open>
  Claim C6. The claim is that the analyzer never raises on a source that fails to parse
  and returns the degraded analysis. The source catches \<open>SyntaxError\<close> only. On
  \<open>deep_source\<close> the parser raises \<open>RecursionError\<close>: the exception leaves
  \<open>analyze_python_file\<close> and the whole request, nothing is cached, and no analysis is
  returned.
\<close>

theorem parser_exception_leaves_analyzer:
  "ast_parse deep_runtime (decode_text deep_runtime deep_source) =
     OtherError ''RecursionError: maximum recursion depth exceeded'' \<and>
   analyze_python_file deep_runtime (file_with deep_source) ''deep.py'' =
     Inl ''RecursionError: maximum recursion depth exceeded'' \<and>
   analyze_file_with_progress deep_runtime (file_with deep_source) 1 ''deep.py''
     (init_db :: CodeAnalysis database) =
     (Inl ''RecursionError: maximum recursion depth exceeded'', init_db,
      [Analyzing_file, Checking_cache, Analyzing_code_structure])"
proof -
  have f: "file_with deep_source ''deep.py'' = File deep_source"
    by (simp add: file_with_def)
  have p: "ast_parse deep_runtime (decode_text deep_runtime deep_source) =
      OtherError ''RecursionError: maximum recursion depth exceeded''"
    by (simp add: deep_runtime_def example_runtime_def)
  have raised: "analyze_python_file deep_runtime (file_with deep_source) ''deep.py'' =
      Inl ''RecursionError: maximum recursion depth exceeded''"
    by (rule python_parser_exception [where fs = "file_with deep_source"
          and path = "''deep.py''", OF f p])
  have ext: "SUPPORTED_EXTENSIONS (lower (path_suffix ''deep.py'')) = Some ''python''"
    by code_simp
  have extractor: "analyze_uncached deep_runtime (file_with deep_source) ''deep.py'' =
      Inl ''RecursionError: maximum recursion depth exceeded''"
    by (simp add: analyze_uncached_def Let_def ext raised)
  have h: "get_file_hash deep_runtime (file_with deep_source) ''deep.py'' = ''md5:'' @ deep_source"
    by (simp add: get_file_hash_def f deep_runtime_def example_runtime_def)
  have miss: "select_analysis_data ''deep.py'' d (init_db :: CodeAnalysis database) = None" for d
    by (simp add: select_analysis_data_def init_db_def)
  have "analyze_file_with_progress deep_runtime (file_with deep_source) 1 ''deep.py''
     (init_db :: CodeAnalysis database) =
     (Inl ''RecursionError: maximum recursion depth exceeded'', init_db,
      [Analyzing_file, Checking_cache, Analyzing_code_structure])"
    by (simp add: request_cases f h miss extractor)
  with p raised show ?thesis by blast
qed

text \<open>
  Claim C8. The claim is one case-insensitive test on both paths. The Python path
  tests the lower-cased content; the generic path counts \<open>TODO\<close> and \<open>FIXME\<close> in upper
  case only. For the content \<open># todo: tidy up\<close> the Python path emits the issue and the
  generic path, for the same content in a shell script, does not.
\<close>

theorem todo_check_differs_between_paths:
  "str_contains ''todo'' (lower (decode_text comment_runtime ''# todo: tidy up'')) \<and>
   SUPPORTED_EXTENSIONS (lower (path_suffix ''job.py'')) = Some ''python'' \<and>
   SUPPORTED_EXTENSIONS (lower (path_suffix ''job.sh'')) = Some ''bash'' \<and>
   map_sum id (\<lambda>a. ''Contains TODO/FIXME comments'' \<in> set (issues a))
     (analyze_python_file comment_runtime (file_with ''# todo: tidy up'') ''job.py'') = Inr True \<and>
   ''Contains TODO/FIXME comments'' \<notin>
     set (issues (analyze_generic_file comment_runtime (file_with ''# todo: tidy up'')
            ''job.sh'' ''bash''))"
proof -
  have d: "decode_text comment_runtime = (\<lambda>b. b)"
    by (simp add: comment_runtime_def example_runtime_def)
  have f: "file_with ''# todo: tidy up'' p = File ''# todo: tidy up''" for p
    by (simp add: file_with_def)
  have p: "ast_parse comment_runtime (decode_text comment_runtime ''# todo: tidy up'') =
      Parsed (Node Other_node [])"
    by (simp add: comment_runtime_def)
  have low: "str_contains ''todo'' (lower (decode_text comment_runtime ''# todo: tidy up''))"
    unfolding d by code_simp
  have up: "\<not> (str_contains ''TODO'' (decode_text comment_runtime ''# todo: tidy up'') \<or>
      str_contains ''FIXME'' (decode_text comment_runtime ''# todo: tidy up''))"
    unfolding d by code_simp
  have e1: "SUPPORTED_EXTENSIONS (lower (path_suffix ''job.py'')) = Some ''python''"
    and e2: "SUPPORTED_EXTENSIONS (lower (path_suffix ''job.sh'')) = Some ''bash''"
    by code_simp+
  from python_issues_parsed [where rt = comment_runtime and fs = "file_with ''# todo: tidy up''"
      and path = "''job.py''" and b = "''# todo: tidy up''", OF f p] low
  have py: "map_sum id (\<lambda>a. ''Contains TODO/FIXME comments'' \<in> set (issues a))
     (analyze_python_file comment_runtime (file_with ''# todo: tidy up'') ''job.py'') = Inr True"
    by auto
  have gen: "''Contains TODO/FIXME comments'' \<notin>
     set (issues (analyze_generic_file comment_runtime (file_with ''# todo: tidy up'')
            ''job.sh'' ''bash''))"
    using generic_todo_issue [where rt = comment_runtime and fs = "file_with ''# todo: tidy up''"
        and path = "''job.sh''" and b = "''# todo: tidy up''" and lang = "''bash''", OF f] up
    by blast
  show ?thesis using low e1 e2 py gen by blast
qed

text \<open>
  Claim C10. On the Python path, for a source that parses, the analyzer returns an
  analysis, and the issue "Print statements found - consider using logging" is among
  its issues exactly when the content contains \<open>print(\<close> and the lower-cased content
  does not contain \<open>debug\<close>.
\<close>

theorem print_statement_check:
  fixes rt :: "'j runtime"
  assumes "fs path = File b" and "ast_parse rt (decode_text rt b) = Parsed tree"
  shows "\<exists>a. analyze_python_file rt fs path = Inr a \<and>
           (''Print statements found - consider using logging'' \<in> set (issues a)) =
             (str_contains ''print('' (decode_text rt b) \<and>
              \<not> str_contains ''debug'' (lower (decode_text rt b)))"
  using python_issues_parsed [of fs path b rt tree, OF assms] by blast

theorem print_statement_check_witness:
  "file_with ''print(1)'' ''m.py'' = File ''print(1)'' \<and>
   ast_parse two_functions_runtime (decode_text two_functions_runtime ''print(1)'') =
     Parsed two_functions \<and>
   map_sum id (\<lambda>a. ''Print statements found - consider using logging'' \<in> set (issues a))
     (analyze_python_file two_functions_runtime (file_with ''print(1)'') ''m.py'') = Inr True \<and>
   file_with ''print(1) # DEBUG'' ''m.py'' = File ''print(1) # DEBUG'' \<and>
   ast_parse two_functions_runtime (decode_text two_functions_runtime ''print(1) # DEBUG'') =
     Parsed two_functions \<and>
   map_sum id (\<lambda>a. ''Print statements found - consider using logging'' \<in> set (issues a))
     (analyze_python_file two_functions_runtime (file_with ''print(1) # DEBUG'') ''m.py'') =
     Inr False"
proof -
  have f1: "file_with ''print(1)'' ''m.py'' = File ''print(1)''"
    and f2: "file_with ''print(1) # DEBUG'' ''m.py'' = File ''print(1) # DEBUG''"
    by (simp_all add: file_with_def)
  have p1: "ast_parse two_functions_runtime (decode_text two_functions_runtime ''print(1)'') =
      Parsed two_functions"
    and p2: "ast_parse two_functions_runtime (decode_text two_functions_runtime ''print(1) # DEBUG'') =
      Parsed two_functions"
    by (simp_all add: two_functions_runtime_def)
  have d: "decode_text two_functions_runtime = (\<lambda>b. b)"
    by (simp add: two_functions_runtime_def example_runtime_def)
  have c1: "str_contains ''print('' (decode_text two_functions_runtime ''print(1)'') \<and>
      \<not> str_contains ''debug'' (lower (decode_text two_functions_runtime ''print(1)''))"
    unfolding d by code_simp
  have c2: "str_contains ''debug'' (lower (decode_text two_functions_runtime ''print(1) # DEBUG''))"
    unfolding d by code_simp
  from print_statement_check [where rt = two_functions_runtime and fs = "file_with ''print(1)''"
      and path = "''m.py''" and b = "''print(1)''" and tree = two_functions, OF f1 p1] c1
  have r1: "map_sum id (\<lambda>a. ''Print statements found - consider using logging'' \<in> set (issues a))
     (analyze_python_file two_functions_runtime (file_with ''print(1)'') ''m.py'') = Inr True"
    by auto
  from print_statement_check [where rt = two_functions_runtime
      and fs = "file_with ''print(1) # DEBUG''" and path = "''m.py''"
      and b = "''print(1) # DEBUG''" and tree = two_functions, OF f2 p2] c2
  have r2: "map_sum id (\<lambda>a. ''Print statements found - consider using logging'' \<in> set (issues a))
     (analyze_python_file two_functions_runtime (file_with ''print(1) # DEBUG'') ''m.py'') =
     Inr False"
    by auto
  show ?thesis using f1 f2 p1 p2 r1 r2 by blast
qed

lemma unknown_extension_dispatch:
  assumes "SUPPORTED_EXTENSIONS (lower (path_suffix path)) = None"
  shows "analyze_uncached rt fs path = Inr (analyze_generic_file rt fs path ''unknown'')"
  using assms by (simp add: analyze_uncached_def Let_def)

text \<open>
  Claim C9. The claim is that a file of unknown extension gets exactly one advisory
  issue. \<open>analyze_file_with_progress\<close> hands the language \<open>unknown\<close> to
  \<open>analyze_generic_file\<close>, which has no branch for it: \<open>notes.txt\<close> with the content
  \<open>hello\<close> comes back with language \<open>unknown\<close> and no issue. The unknown branch of the
  single-file program gives the one advisory issue for the same file.
\<close>

theorem unknown_extension_gets_no_advisory_issue:
  "SUPPORTED_EXTENSIONS (lower (path_suffix ''notes.txt'')) = None \<and>
   map_sum id (map_option language)
     (fst (analyze_file_with_progress example_runtime notes_v1 1 ''notes.txt'' init_db)) =
     Inr (Some ''unknown'') \<and>
   map_sum id (map_option issues)
     (fst (analyze_file_with_progress example_runtime notes_v1 1 ''notes.txt'' init_db)) =
     Inr (Some []) \<and>
   map_sum id issues (legacy_analyze_unknown example_runtime notes_v1 ''notes.txt'') =
     Inr [''Unknown file type - limited analysis available'']"
proof -
  have ext: "SUPPORTED_EXTENSIONS (lower (path_suffix ''notes.txt'')) = None" by code_simp
  have isfile: "notes_v1 ''notes.txt'' = File ''hello''" by (simp add: notes_v1_def)
  have d: "decode_text example_runtime = (\<lambda>b. b)" by (simp add: example_runtime_def)
  have h: "get_file_hash example_runtime notes_v1 ''notes.txt'' = ''md5:hello''"
    by (simp add: get_file_hash_def isfile example_runtime_def)
  have miss: "select_analysis_data ''notes.txt'' ''md5:hello'' (init_db :: CodeAnalysis database) = None"
    by (simp add: select_analysis_data_def init_db_def)
  have res: "fst (analyze_file_with_progress example_runtime notes_v1 1 ''notes.txt'' init_db) =
      Inr (Some (analyze_generic_file example_runtime notes_v1 ''notes.txt'' ''unknown''))"
    using isfile miss by (simp add: request_cases h unknown_extension_dispatch [OF ext])
  have lines: "splitlines (decode_text example_runtime ''hello'') = [''hello'']"
    unfolding d by code_simp
  have plain: "\<not> (str_contains ''TODO'' (decode_text example_runtime ''hello'') \<or>
      str_contains ''FIXME'' (decode_text example_runtime ''hello''))"
    unfolding d by code_simp
  have none: "issues (analyze_generic_file example_runtime notes_v1 ''notes.txt'' ''unknown'') = []"
    using plain
    by (simp add: generic_unknown [where fs = notes_v1 and path = "''notes.txt''", OF isfile] lines)
  have lang: "language (analyze_generic_file example_runtime notes_v1 ''notes.txt'' ''unknown'') =
      ''unknown''"
    by (simp add: generic_unknown [where fs = notes_v1 and path = "''notes.txt''", OF isfile])
  have legacy: "map_sum id issues (legacy_analyze_unknown example_runtime notes_v1 ''notes.txt'') =
      Inr [''Unknown file type - limited analysis available'']"
    by (simp add: legacy_analyze_unknown_def read_text_def isfile)
  show ?thesis using ext legacy by (simp add: res none lang)
qed

end
